theory Spec2Isabelle
  imports Complex_Main "HOL-Library.Multiset" "HOL-Library.Sublist" "HOL-Library.Product_Lexorder"
begin

section \<open>The JavaScript runtime functions the components call\<close>

subsection \<open>Date: time values and the calendar of ECMA-262\<close>

text \<open>
  A \<open>Date\<close> object holds a time value: the milliseconds since 1970-01-01T00:00:00Z.
  \<open>getDate\<close> and \<open>setDate\<close> work on local time, \<open>toISOString\<close> on UTC. The definitions
  below are the abstract operations of ECMA-262 (section "Date Objects") under their own
  names. The time line is not clipped at \<open>\<plusminus>8.64e15\<close> ms: the components only build
  dates a few days or clicks away from the wall clock.
\<close>

type_synonym Date = int

definition msPerDay :: int where
  "msPerDay = 86400000"

definition Day :: "int \<Rightarrow> int" where
  "Day t = t div msPerDay"

definition TimeWithinDay :: "int \<Rightarrow> int" where
  "TimeWithinDay t = t mod msPerDay"

definition DaysInYear :: "int \<Rightarrow> int" where
  "DaysInYear y =
     (if y mod 4 \<noteq> 0 then 365
      else if y mod 100 \<noteq> 0 then 366
      else if y mod 400 \<noteq> 0 then 365
      else 366)"

definition DayFromYear :: "int \<Rightarrow> int" where
  "DayFromYear y =
     365 * (y - 1970) + (y - 1969) div 4 - (y - 1901) div 100 + (y - 1601) div 400"

text \<open>
  \<open>YearFromTime t\<close> is the largest \<open>y\<close> with \<open>DayFromYear y \<le> Day t\<close>. It is computed by a
  search upwards from an estimate that is never too large; the search ends because every
  year has at least 365 days.
\<close>

lemma div_step:
  "1 < n \<Longrightarrow> (x + 1) div n = x div n + (if (x + 1) mod n = 0 then 1 else 0)"
  for x n :: int
proof -
  assume n: "1 < n"
  have a: "(x + 1) div n = x div n + 1 div n + (x mod n + 1 mod n) div n"
    by (rule div_add1_eq)
  have b: "1 div n = 0" "1 mod n = 1" using n by simp_all
  have r: "0 \<le> x mod n" "x mod n < n" using n by simp_all
  have c: "(x + 1) mod n = (x mod n + 1) mod n"
    by (simp add: mod_add_left_eq)
  show ?thesis
  proof (cases "x mod n + 1 = n")
    case True
    then have "(x mod n + 1) div n = 1" "(x mod n + 1) mod n = 0" using n by simp_all
    with a b c show ?thesis by simp
  next
    case False
    with r have lt: "x mod n + 1 < n" by simp
    with r have "(x mod n + 1) div n = 0" "(x mod n + 1) mod n = x mod n + 1"
      by (simp_all add: div_pos_pos_trivial mod_pos_pos_trivial)
    with a b c r show ?thesis by simp
  qed
qed

lemma leap_mod4: "(y - 1969 + 1) mod 4 = 0 \<longleftrightarrow> y mod 4 = 0" for y :: int
proof -
  have "(y - 1969 + 1) mod 4 = (y + 4 * (- 492)) mod 4" by simp
  also have "\<dots> = y mod 4" by (rule mod_mult_self2)
  finally show ?thesis by simp
qed

lemma leap_mod100: "(y - 1901 + 1) mod 100 = 0 \<longleftrightarrow> y mod 100 = 0" for y :: int
proof -
  have "(y - 1901 + 1) mod 100 = (y + 100 * (- 19)) mod 100" by simp
  also have "\<dots> = y mod 100" by (rule mod_mult_self2)
  finally show ?thesis by simp
qed

lemma leap_mod400: "(y - 1601 + 1) mod 400 = 0 \<longleftrightarrow> y mod 400 = 0" for y :: int
proof -
  have "(y - 1601 + 1) mod 400 = (y + 400 * (- 4)) mod 400" by simp
  also have "\<dots> = y mod 400" by (rule mod_mult_self2)
  finally show ?thesis by simp
qed

lemma mod100_mod4: "y mod 100 = 0 \<Longrightarrow> y mod 4 = 0" for y :: int
proof -
  assume "y mod 100 = 0"
  then have "100 dvd y" by (simp add: dvd_eq_mod_eq_0)
  moreover have "(4::int) dvd 100" by simp
  ultimately have "4 dvd y" by (rule dvd_trans [rotated])
  then show ?thesis by (simp add: dvd_eq_mod_eq_0)
qed

lemma mod400_mod100: "y mod 400 = 0 \<Longrightarrow> y mod 100 = 0" for y :: int
proof -
  assume "y mod 400 = 0"
  then have "400 dvd y" by (simp add: dvd_eq_mod_eq_0)
  moreover have "(100::int) dvd 400" by simp
  ultimately have "100 dvd y" by (rule dvd_trans [rotated])
  then show ?thesis by (simp add: dvd_eq_mod_eq_0)
qed

lemma DayFromYear_Suc: "DayFromYear (y + 1) = DayFromYear y + DaysInYear y"
proof -
  have a: "(y + 1 - 1969) div 4 = (y - 1969) div 4 + (if y mod 4 = 0 then 1 else 0)"
    using div_step [of 4 "y - 1969"] leap_mod4 [of y] by (simp add: algebra_simps)
  have b: "(y + 1 - 1901) div 100 = (y - 1901) div 100 + (if y mod 100 = 0 then 1 else 0)"
    using div_step [of 100 "y - 1901"] leap_mod100 [of y] by (simp add: algebra_simps)
  have c: "(y + 1 - 1601) div 400 = (y - 1601) div 400 + (if y mod 400 = 0 then 1 else 0)"
    using div_step [of 400 "y - 1601"] leap_mod400 [of y] by (simp add: algebra_simps)
  show ?thesis
    unfolding DayFromYear_def DaysInYear_def a b c
    using mod100_mod4 [of y] mod400_mod100 [of y] by auto
qed

lemma DayFromYear_less: "DayFromYear y < DayFromYear (y + 1)"
  by (simp add: DayFromYear_Suc DaysInYear_def)

function yearFrom :: "int \<Rightarrow> int \<Rightarrow> int" where
  "yearFrom d y = (if DayFromYear (y + 1) \<le> d then yearFrom d (y + 1) else y)"
  by pat_completeness auto
termination
proof (relation "measure (\<lambda>(d, y). nat (d + 1 - DayFromYear (y + 1)))")
  show "wf (measure (\<lambda>(d, y). nat (d + 1 - DayFromYear (y + 1))))" by simp
next
  fix d y :: int
  assume "DayFromYear (y + 1) \<le> d"
  moreover have "DayFromYear (y + 1) < DayFromYear (y + 1 + 1)"
    by (rule DayFromYear_less)
  ultimately show "((d, y + 1), (d, y)) \<in> measure (\<lambda>(d, y). nat (d + 1 - DayFromYear (y + 1)))"
    by simp
qed

definition YearFromTime :: "int \<Rightarrow> int" where
  "YearFromTime t =
     (let d = Day t
      in yearFrom d (1970 + (if 0 \<le> d then d div 366 else d div 365)))"

definition InLeapYear :: "int \<Rightarrow> int" where
  "InLeapYear t = (if DaysInYear (YearFromTime t) = 366 then 1 else 0)"

definition DayWithinYear :: "int \<Rightarrow> int" where
  "DayWithinYear t = Day t - DayFromYear (YearFromTime t)"

definition MonthFromTime :: "int \<Rightarrow> int" where
  "MonthFromTime t =
     (let d = DayWithinYear t; l = InLeapYear t
      in if d < 31 then 0
         else if d < 59 + l then 1
         else if d < 90 + l then 2
         else if d < 120 + l then 3
         else if d < 151 + l then 4
         else if d < 181 + l then 5
         else if d < 212 + l then 6
         else if d < 243 + l then 7
         else if d < 273 + l then 8
         else if d < 304 + l then 9
         else if d < 334 + l then 10
         else 11)"

definition monthStart :: "int \<Rightarrow> int \<Rightarrow> int" where
  "monthStart m l =
     (if m = 0 then 0
      else if m = 1 then 31
      else if m = 2 then 59 + l
      else if m = 3 then 90 + l
      else if m = 4 then 120 + l
      else if m = 5 then 151 + l
      else if m = 6 then 181 + l
      else if m = 7 then 212 + l
      else if m = 8 then 243 + l
      else if m = 9 then 273 + l
      else if m = 10 then 304 + l
      else 334 + l)"

definition DateFromTime :: "int \<Rightarrow> int" where
  "DateFromTime t = DayWithinYear t - monthStart (MonthFromTime t) (InLeapYear t) + 1"

definition MakeDay :: "int \<Rightarrow> int \<Rightarrow> int \<Rightarrow> int" where
  "MakeDay year month date =
     (let ym = year + month div 12;
          mn = month mod 12;
          l = (if DaysInYear ym = 366 then 1 else 0)
      in DayFromYear ym + monthStart mn l + date - 1)"

definition MakeDate :: "int \<Rightarrow> int \<Rightarrow> int" where
  "MakeDate day time = day * msPerDay + time"

text \<open>
  The local time zone is the environment's. ECMA-262 reaches it through
  \<open>LocalTZA (t, isUTC)\<close>: the offset in force at the UTC time \<open>t\<close>, or the offset under which
  the local time \<open>t\<close> is read. The two differ around a transition (daylight saving, or a
  change of the zone's standard offset), where a local time can be skipped or occur twice.
  A zone is therefore a pair of functions, and every function that uses local time takes
  the zone as its first argument.
\<close>

record TimeZone =
  offsetAtUTC :: "int \<Rightarrow> int"
  offsetAtLocal :: "int \<Rightarrow> int"

definition LocalTime :: "TimeZone \<Rightarrow> int \<Rightarrow> int" where
  "LocalTime zone t = t + offsetAtUTC zone t"

definition UTC :: "TimeZone \<Rightarrow> int \<Rightarrow> int" where
  "UTC zone t = t - offsetAtLocal zone t"

definition getDate :: "TimeZone \<Rightarrow> Date \<Rightarrow> int" where
  "getDate zone d = DateFromTime (LocalTime zone d)"

definition setDate :: "TimeZone \<Rightarrow> Date \<Rightarrow> int \<Rightarrow> Date" where
  "setDate zone d dt =
     (let t = LocalTime zone d;
          newDate = MakeDate (MakeDay (YearFromTime t) (MonthFromTime t) dt) (TimeWithinDay t)
      in UTC zone newDate)"

definition digitChar :: "int \<Rightarrow> char" where
  "digitChar n = char_of (48 + nat n)"

fun padDigits :: "nat \<Rightarrow> int \<Rightarrow> string" where
  "padDigits 0 n = []"
| "padDigits (Suc k) n = padDigits k (n div 10) @ [digitChar (n mod 10)]"

definition isoYear :: "int \<Rightarrow> string" where
  "isoYear y =
     (if 0 \<le> y \<and> y \<le> 9999 then padDigits 4 y
      else if y < 0 then CHR ''-'' # padDigits 6 (- y)
      else CHR ''+'' # padDigits 6 y)"

definition toISOString :: "Date \<Rightarrow> string" where
  "toISOString t =
     isoYear (YearFromTime t) @ ''-'' @ padDigits 2 (MonthFromTime t + 1) @ ''-''
       @ padDigits 2 (DateFromTime t) @ ''T''
       @ padDigits 2 (t div 3600000 mod 24) @ '':''
       @ padDigits 2 (t div 60000 mod 60) @ '':''
       @ padDigits 2 (t div 1000 mod 60) @ ''.''
       @ padDigits 3 (t mod 1000) @ ''Z''"

definition formatDateISO :: "Date \<Rightarrow> string" where
  "formatDateISO date = takeWhile (\<lambda>c. c \<noteq> CHR ''T'') (toISOString date)"

subsection \<open>Strings that are read character by character\<close>

text \<open>
  A JavaScript string is a sequence of UTF-16 code units. The room label is the one string
  of the components whose characters are inspected (by \<open>parseInt\<close>), so it is kept as the
  list of its code units, each a number below 65536. All other strings are only compared,
  tested for emptiness and concatenated, and stay HOL strings. \<open>utf16\<close> gives the code
  units of an ASCII literal.
\<close>

type_synonym jsstring = "nat list"

definition utf16 :: "string \<Rightarrow> jsstring" where
  "utf16 cs = map of_char cs"

subsection \<open>Numbers\<close>

text \<open>
  The Number values that can arise from \<open>parseInt\<close> and from the subtraction of the
  comparator: \<open>NaN\<close>, the two infinities, and the doubles with an integer value (negative
  zero is not told apart from zero: \<open>|| 0\<close> maps both to 0). \<open>toNumber\<close> is the rounding of a
  mathematical integer to the nearest double, ties to the even significand, and to an
  infinity from \<open>2 ^ 1024 - 2 ^ 970\<close> on: below \<open>2 ^ 53\<close> every integer is a double; above,
  the 53 leading bits are kept and the rest decides the rounding.
\<close>

datatype number = NaN | NegInf | Finite int | PosInf

fun bitLength :: "nat \<Rightarrow> nat" where
  "bitLength n = (if n = 0 then 0 else Suc (bitLength (n div 2)))"

declare bitLength.simps [simp del]

definition toNumber :: "int \<Rightarrow> number" where
  "toNumber n =
     (let a = nat \<bar>n\<bar>
      in if a < 9007199254740992 then Finite n
         else
           let e = bitLength a - 1;
               q = 2 ^ (e - 52);
               m = a div q;
               r = a mod q;
               m' = (if q < 2 * r \<or> (2 * r = q \<and> odd m) then m + 1 else m);
               v = m' * q
           in if 2 ^ 1024 \<le> v then (if n < 0 then NegInf else PosInf)
              else Finite (sgn n * int v))"

text \<open>
  Subtraction of two such numbers, the test \<open>v > 0\<close>, and the reading of a comparator's
  result by \<open>Array.prototype.sort\<close>, which takes \<open>NaN\<close> for \<open>+0\<close>.
\<close>

fun number_minus :: "number \<Rightarrow> number \<Rightarrow> number" where
  "number_minus NaN y = NaN"
| "number_minus x NaN = NaN"
| "number_minus PosInf PosInf = NaN"
| "number_minus NegInf NegInf = NaN"
| "number_minus PosInf y = PosInf"
| "number_minus NegInf y = NegInf"
| "number_minus (Finite a) PosInf = NegInf"
| "number_minus (Finite a) NegInf = PosInf"
| "number_minus (Finite a) (Finite b) = toNumber (a - b)"

fun isPositive :: "number \<Rightarrow> bool" where
  "isPositive PosInf = True"
| "isPositive (Finite n) = (0 < n)"
| "isPositive v = False"

definition SortCompare :: "number \<Rightarrow> number" where
  "SortCompare v = (if v = NaN then Finite 0 else v)"

subsection \<open>parseInt\<close>

text \<open>
  \<open>parseInt (string)\<close> with no radix, after ECMA-262: leading white space
  (\<open>StrWhiteSpaceChar\<close>: the white space and line terminators of the language, Unicode
  ones included) is skipped, one sign is read, a prefix \<open>0x\<close> or \<open>0X\<close> selects radix 16,
  and the longest run of digits of the radix is the value, rounded to a Number; no digit
  at all gives \<open>NaN\<close>. For more than 20 significant decimal digits ECMA-262 lets an
  implementation replace the later digits by zeros; the model keeps them.
\<close>

definition isWhiteSpace :: "nat \<Rightarrow> bool" where
  "isWhiteSpace c =
     (c \<in> set [0x0009, 0x000A, 0x000B, 0x000C, 0x000D, 0x0020, 0x00A0, 0x1680,
               0x2000, 0x2001, 0x2002, 0x2003, 0x2004, 0x2005, 0x2006, 0x2007, 0x2008,
               0x2009, 0x200A, 0x2028, 0x2029, 0x202F, 0x205F, 0x3000, 0xFEFF])"

definition digitValue :: "nat \<Rightarrow> nat option" where
  "digitValue c =
     (if 48 \<le> c \<and> c \<le> 57 then Some (c - 48)
      else if 97 \<le> c \<and> c \<le> 122 then Some (c - 87)
      else if 65 \<le> c \<and> c \<le> 90 then Some (c - 55)
      else None)"

definition isRadixDigit :: "nat \<Rightarrow> nat \<Rightarrow> bool" where
  "isRadixDigit R c = (case digitValue c of None \<Rightarrow> False | Some v \<Rightarrow> v < R)"

definition mathInt :: "nat \<Rightarrow> jsstring \<Rightarrow> int" where
  "mathInt R Z =
     foldl (\<lambda>acc c. acc * int R + (case digitValue c of None \<Rightarrow> 0 | Some v \<Rightarrow> int v)) 0 Z"

definition parseInt :: "jsstring \<Rightarrow> number" where
  "parseInt string =
     (let S = dropWhile isWhiteSpace string;
          sign = (if take 1 S = utf16 ''-'' then - 1 else 1);
          S1 = (if take 1 S = utf16 ''+'' \<or> take 1 S = utf16 ''-'' then drop 1 S else S);
          hex = (take 2 S1 = utf16 ''0x'' \<or> take 2 S1 = utf16 ''0X'');
          R = (if hex then 16 else 10);
          S2 = (if hex then drop 2 S1 else S1);
          Z = takeWhile (isRadixDigit R) S2
      in if Z = [] then NaN else toNumber (sign * mathInt R Z))"

section \<open>Data model\<close>

text \<open>
  The interfaces of \<^verbatim>\<open>CalendarView.vue\<close> and \<^verbatim>\<open>HousekeepingTaskManager.vue\<close>. A field
  marked \<open>?\<close> in the source is an \<open>option\<close>. The string unions (\<open>taskType\<close>, \<open>priority\<close>,
  \<open>status\<close>, \<open>role\<close>) are erased at run time and compared with plain strings (the status
  filter), so they are strings here. Field names that two interfaces share, or that HOL
  already uses, carry the interface as a suffix.
\<close>

record HousekeepingTask =
  id_task :: string
  roomId :: string
  roomNumber_task :: "string option"
  assignedUserId :: string
  assignedUserName :: "string option"
  taskDate :: string
  taskType :: string
  priority :: string
  status_task :: string
  notes_task :: "string option"
  startedAt :: "string option"
  completedAt :: "string option"

text \<open>The task manager's interface has two more fields.\<close>

record ManagedTask = HousekeepingTask +
  createdAt :: string
  updatedAt :: "string option"

record Room =
  id_room :: string
  roomNumber :: jsstring
  roomTypeName :: "string option"
  floor_room :: "int option"
  status_room :: string

record User =
  id_user :: string
  name_user :: string
  role :: string
  status_user :: string

record PendingMove =
  task :: HousekeepingTask
  fromDate :: string
  toDate :: string

record TaskForm =
  roomId_form :: string
  assignedUserId_form :: string
  taskDate_form :: string
  taskType_form :: string
  priority_form :: string
  status_form :: string
  notes_form :: string

section \<open>The REST store as the components see it\<close>

text \<open>
  Every \<open>fetch\<close> call is appended to a log of requests kept in the component's state, and
  the store is a function from the log (the call just made last) to what that call
  gives back. Within one run no two calls have the same log, so such a function can stand
  for any behaviour of the network and the backend. The query string built with
  \<open>URLSearchParams\<close> is kept as its list of pairs, and a JSON object as the list of its
  fields. \<open>data\<close> has type \<open>any\<close> in the source; the model gives it the fields the
  components read, with the types of the REST contract.
\<close>

datatype http_method = GET | POST | PUT | DELETE

type_synonym json_object = "(string \<times> string) list"

record request =
  req_method :: http_method
  req_url :: string
  req_query :: "(string \<times> string) list"
  req_headers :: "(string \<times> string) list"
  req_body :: "json_object option"

record 't json_data =
  data_tasks :: "'t list"
  data_rooms :: "Room list"
  data_users :: "User list"
  data_error :: "string option"

datatype 't json_result = JsonThrows | Json "'t json_data"

datatype 't response = FetchThrows | Response bool "'t json_result"

type_synonym 't store = "request list \<Rightarrow> 't response"

definition API_URL :: string where
  "API_URL = ''http://localhost:3000''"

definition get_request :: "string \<Rightarrow> (string \<times> string) list \<Rightarrow> request" where
  "get_request path query =
     \<lparr>req_method = GET, req_url = API_URL @ path, req_query = query,
      req_headers = [], req_body = None\<rparr>"

definition json_request :: "http_method \<Rightarrow> string \<Rightarrow> json_object \<Rightarrow> request" where
  "json_request m path obj =
     \<lparr>req_method = m, req_url = API_URL @ path, req_query = [],
      req_headers = [(''Content-Type'', ''application/json'')], req_body = Some obj\<rparr>"

text \<open>\<open>data.error || fallback\<close>: an absent or empty message is falsy.\<close>

definition or_else :: "string option \<Rightarrow> string \<Rightarrow> string" where
  "or_else v fallback = (case v of None \<Rightarrow> fallback | Some e \<Rightarrow> if e = [] then fallback else e)"

section \<open>CalendarView.vue\<close>

text \<open>
  The refs of the component, with the log of requests. A handler is a function from
  state to state: the single-threaded event loop runs nothing else between its
  statements. For an \<open>async\<close> handler this function is its run with nothing else
  happening while it is suspended; \<open>fetchTasks\<close> and \<open>confirmMove\<close> are also given with
  their suspension points, further down.
\<close>

record calendar =
  rooms :: "Room list"
  tasks :: "HousekeepingTask list"
  loading :: bool
  error :: string
  startDate :: Date
  daysToShow :: int
  containerWidth :: int
  transitionDirection :: "string option"
  draggedTask :: "HousekeepingTask option"
  draggedFromDate :: "string option"
  pendingMove :: "PendingMove option"
  statusFilter :: string
  requests :: "request list"

text \<open>
  \<^verbatim>\<open>
  const dates = computed(() => {
    const dateArray: Date[] = []
    for (let i = 0; i < daysToShow.value; i++) {
      const date = new Date(startDate.value)
      date.setDate(date.getDate() + i)
      dateArray.push(date)
    }
    return dateArray
  })
  \<close>
\<close>

function dates_loop :: "TimeZone \<Rightarrow> int \<Rightarrow> Date \<Rightarrow> int \<Rightarrow> Date list \<Rightarrow> Date list" where
  "dates_loop zone n start i dateArray =
     (if i < n
      then dates_loop zone n start (i + 1)
             (dateArray @ [setDate zone start (getDate zone start + i)])
      else dateArray)"
  by pat_completeness auto
termination
  by (relation "measure (\<lambda>(zone, n, start, i, dateArray). nat (n - i))") auto

definition dates :: "TimeZone \<Rightarrow> calendar \<Rightarrow> Date list" where
  "dates zone s = dates_loop zone (daysToShow s) (startDate s) 0 []"

text \<open>
  \<^verbatim>\<open>
  filtered.sort((a, b) => {
    const numA = parseInt(a.roomNumber) || 0
    const numB = parseInt(b.roomNumber) || 0
    return numA - numB
  })
  \<close>
  \<open>Array.prototype.sort\<close> is stable, and with a consistent comparator its result is
  determined: the elements in ascending order of the comparator, equal ones in their
  original order. \<open>sort_js\<close> is the insertion sort that computes it: an element moves
  behind another exactly when the comparator's result for the two is positive.
\<close>

definition numberOrZero :: "number \<Rightarrow> number" where
  "numberOrZero v = (if v = NaN \<or> v = Finite 0 then Finite 0 else v)"

definition compareRooms :: "Room \<Rightarrow> Room \<Rightarrow> number" where
  "compareRooms a b =
     (let numA = numberOrZero (parseInt (roomNumber a));
          numB = numberOrZero (parseInt (roomNumber b))
      in number_minus numA numB)"

fun insert_js :: "('a \<Rightarrow> 'a \<Rightarrow> number) \<Rightarrow> 'a \<Rightarrow> 'a list \<Rightarrow> 'a list" where
  "insert_js cmp x [] = [x]"
| "insert_js cmp x (y # ys) =
     (if isPositive (SortCompare (cmp x y)) then y # insert_js cmp x ys else x # y # ys)"

definition sort_js :: "('a \<Rightarrow> 'a \<Rightarrow> number) \<Rightarrow> 'a list \<Rightarrow> 'a list" where
  "sort_js cmp xs = foldr (insert_js cmp) xs []"

definition filteredRooms :: "calendar \<Rightarrow> Room list" where
  "filteredRooms s = (let filtered = rooms s in sort_js compareRooms filtered)"

definition fetchRooms :: "HousekeepingTask store \<Rightarrow> calendar \<Rightarrow> calendar" where
  "fetchRooms store s =
     (let s1 = s\<lparr>requests := requests s @ [get_request ''/rooms'' []]\<rparr>
      in case store (requests s1) of
           FetchThrows \<Rightarrow> s1\<lparr>error := ''Failed to fetch rooms''\<rparr>
         | Response ok js \<Rightarrow>
             (case js of
                JsonThrows \<Rightarrow> s1\<lparr>error := ''Failed to fetch rooms''\<rparr>
              | Json data \<Rightarrow> s1\<lparr>rooms := data_rooms data\<rparr>))"

definition fetchTasks :: "HousekeepingTask store \<Rightarrow> calendar \<Rightarrow> calendar" where
  "fetchTasks store s =
     (let s1 = s\<lparr>requests := requests s @ [get_request ''/housekeeping-tasks'' []]\<rparr>
      in case store (requests s1) of
           FetchThrows \<Rightarrow> s1\<lparr>error := ''Failed to fetch tasks''\<rparr>
         | Response ok js \<Rightarrow>
             (case js of
                JsonThrows \<Rightarrow> s1\<lparr>error := ''Failed to fetch tasks''\<rparr>
              | Json data \<Rightarrow> s1\<lparr>tasks := data_tasks data\<rparr>))"

definition getTasksForRoomAndDate :: "calendar \<Rightarrow> string \<Rightarrow> Date \<Rightarrow> HousekeepingTask list" where
  "getTasksForRoomAndDate s room date =
     (let dateStr = formatDateISO date;
          roomTasks = filter (\<lambda>t. roomId t = room \<and> taskDate t = dateStr) (tasks s)
      in if statusFilter s \<noteq> ''all''
         then filter (\<lambda>t. status_task t = statusFilter s) roomTasks
         else roomTasks)"

definition navigateDays :: "TimeZone \<Rightarrow> calendar \<Rightarrow> int \<Rightarrow> calendar" where
  "navigateDays zone s offset =
     (let s1 = s\<lparr>transitionDirection := Some (if offset > 0 then ''right'' else ''left'')\<rparr>;
          newDate = setDate zone (startDate s1) (getDate zone (startDate s1) + offset)
      in s1\<lparr>startDate := newDate\<rparr>)"

text \<open>The callback that \<open>navigateDays\<close> hands to \<open>setTimeout\<close>.\<close>

definition transitionEnd :: "calendar \<Rightarrow> calendar" where
  "transitionEnd s = s\<lparr>transitionDirection := None\<rparr>"

text \<open>\<open>goToToday\<close> reads the clock: \<open>now\<close> is the value of \<open>new Date()\<close>.\<close>

definition goToToday :: "TimeZone \<Rightarrow> Date \<Rightarrow> calendar \<Rightarrow> calendar" where
  "goToToday zone now s =
     (let yesterday = setDate zone now (getDate zone now - 1)
      in s\<lparr>startDate := yesterday\<rparr>)"

definition changeDaysToShow :: "calendar \<Rightarrow> int \<Rightarrow> calendar" where
  "changeDaysToShow s days = s\<lparr>daysToShow := days\<rparr>"

text \<open>
  \<^verbatim>\<open>
  const calculateDaysToShow = (width: number): number => {
    const availableWidth = width - ROOM_COLUMN_WIDTH
    const maxDays = Math.floor(availableWidth / DATE_COLUMN_WIDTH)
    return Math.max(3, Math.min(30, maxDays))
  }
  \<close>
  The only caller passes \<open>container.clientWidth\<close>, which the DOM defines as an integer
  number of CSS pixels, so the width is an \<open>int\<close>. The quotient is a real division
  followed by \<open>Math.floor\<close>, as in the source.
\<close>

definition ROOM_COLUMN_WIDTH :: int where
  "ROOM_COLUMN_WIDTH = 120"

definition DATE_COLUMN_WIDTH :: int where
  "DATE_COLUMN_WIDTH = 100"

definition calculateDaysToShow :: "int \<Rightarrow> int" where
  "calculateDaysToShow width =
     (let availableWidth = width - ROOM_COLUMN_WIDTH;
          maxDays = \<lfloor>(of_int availableWidth :: real) / of_int DATE_COLUMN_WIDTH\<rfloor>
      in max 3 (min 30 maxDays))"

text \<open>
  \<open>updateContainerWidth\<close> looks the container up in the document: \<open>container\<close> is its
  \<open>clientWidth\<close>, or \<open>None\<close> when the element is not rendered.
\<close>

definition updateContainerWidth :: "calendar \<Rightarrow> int option \<Rightarrow> calendar" where
  "updateContainerWidth s container =
     (case container of
        None \<Rightarrow> s
      | Some width \<Rightarrow> s\<lparr>containerWidth := width, daysToShow := calculateDaysToShow width\<rparr>)"

subsection \<open>Drag and drop\<close>

text \<open>
  \<^verbatim>\<open>
  const handleDragStart = (task: HousekeepingTask, date: Date) => {
    draggedTask.value = task
    draggedFromDate.value = formatDateISO(date)
  }

  const handleDrop = (event: DragEvent, date: Date) => {
    event.preventDefault()
    if (!draggedTask.value || !draggedFromDate.value) return
    const newDate = formatDateISO(date)
    if (newDate === draggedFromDate.value) {
      draggedTask.value = null
      draggedFromDate.value = null
      return
    }
    pendingMove.value = {
      task: draggedTask.value,
      fromDate: draggedFromDate.value,
      toDate: newDate
    }
    draggedTask.value = null
    draggedFromDate.value = null
  }
  \<close>
  \<open>!draggedFromDate.value\<close> holds for \<open>null\<close> and for the empty string.
\<close>

definition handleDragStart :: "calendar \<Rightarrow> HousekeepingTask \<Rightarrow> Date \<Rightarrow> calendar" where
  "handleDragStart s t date =
     s\<lparr>draggedTask := Some t, draggedFromDate := Some (formatDateISO date)\<rparr>"

definition handleDragOver :: "calendar \<Rightarrow> calendar" where
  "handleDragOver s = s"

definition handleDrop :: "calendar \<Rightarrow> Date \<Rightarrow> calendar" where
  "handleDrop s date =
     (case draggedTask s of
        None \<Rightarrow> s
      | Some t \<Rightarrow>
          (case draggedFromDate s of
             None \<Rightarrow> s
           | Some origin \<Rightarrow>
               if origin = [] then s
               else
                 let newDate = formatDateISO date
                 in if newDate = origin
                    then s\<lparr>draggedTask := None, draggedFromDate := None\<rparr>
                    else s\<lparr>pendingMove := Some \<lparr>task = t, fromDate = origin, toDate = newDate\<rparr>,
                           draggedTask := None, draggedFromDate := None\<rparr>))"

text \<open>
  \<^verbatim>\<open>
  const confirmMove = async () => {
    if (!pendingMove.value) return
    loading.value = true
    error.value = ''
    try {
      const response = await fetch(`${API_URL}/housekeeping-tasks/${pendingMove.value.task.id}`, {
        method: 'PUT',
        headers: { 'Content-Type': 'application/json' },
        body: JSON.stringify({ taskDate: pendingMove.value.toDate })
      })
      if (response.ok) {
        pendingMove.value = null
        await fetchTasks()
      } else {
        const data = await response.json()
        error.value = data.error || 'Failed to move task'
        pendingMove.value = null
      }
    } catch (e) {
      error.value = 'Failed to move task'
      pendingMove.value = null
    } finally {
      loading.value = false
    }
  }
  \<close>
  \<open>fetchTasks\<close> catches its own failures, so the \<open>catch\<close> block runs when \<open>fetch\<close>
  rejects or when \<open>response.json()\<close> does.
\<close>

definition move_request :: "PendingMove \<Rightarrow> request" where
  "move_request pm =
     json_request PUT (''/housekeeping-tasks/'' @ id_task (task pm)) [(''taskDate'', toDate pm)]"

definition confirmMove :: "HousekeepingTask store \<Rightarrow> calendar \<Rightarrow> calendar" where
  "confirmMove store s =
     (case pendingMove s of
        None \<Rightarrow> s
      | Some pm \<Rightarrow>
          let s1 = s\<lparr>loading := True, error := []\<rparr>;
              s2 = s1\<lparr>requests := requests s1 @ [move_request pm]\<rparr>;
              s3 = (case store (requests s2) of
                      FetchThrows \<Rightarrow> s2\<lparr>error := ''Failed to move task'', pendingMove := None\<rparr>
                    | Response ok js \<Rightarrow>
                        if ok then fetchTasks store (s2\<lparr>pendingMove := None\<rparr>)
                        else
                          (case js of
                             JsonThrows \<Rightarrow>
                               s2\<lparr>error := ''Failed to move task'', pendingMove := None\<rparr>
                           | Json data \<Rightarrow>
                               s2\<lparr>error := or_else (data_error data) ''Failed to move task'',
                                  pendingMove := None\<rparr>))
          in s3\<lparr>loading := False\<rparr>)"

definition cancelMove :: "calendar \<Rightarrow> calendar" where
  "cancelMove s = s\<lparr>pendingMove := None\<rparr>"

subsection \<open>The asynchronous handlers with their suspension points\<close>

text \<open>
  An \<open>async\<close> function runs up to its first \<open>await\<close>, and goes on when the awaited promise
  settles; in between, the refs are visible to the template and to other handlers. A
  handler is therefore either completed, or suspended at an \<open>await\<close> with the refs as it
  left them: at \<open>await fetch (...)\<close>, with the request it has issued, or at
  \<open>await response.json ()\<close>. Its continuation takes what the promise gave and the refs
  as they are when it resumes.
\<close>

datatype handler =
    Completed calendar
  | AwaitFetch calendar request "HousekeepingTask response \<Rightarrow> calendar \<Rightarrow> handler"
  | AwaitJson calendar "calendar \<Rightarrow> handler"

text \<open>\<open>await\<close> of another \<open>async\<close> function of the component, and what follows it.\<close>

primrec and_then :: "handler \<Rightarrow> (calendar \<Rightarrow> handler) \<Rightarrow> handler" where
  "and_then (Completed s) f = f s"
| "and_then (AwaitFetch s req k) f = AwaitFetch s req (\<lambda>resp s'. and_then (k resp s') f)"
| "and_then (AwaitJson s k) f = AwaitJson s (\<lambda>s'. and_then (k s') f)"

text \<open>\<open>fetchTasks\<close> and \<open>confirmMove\<close> again, each statement at its place between the awaits.\<close>

definition fetchTasks_async :: "calendar \<Rightarrow> handler" where
  "fetchTasks_async s =
     (let req = get_request ''/housekeeping-tasks'' []
      in AwaitFetch (s\<lparr>requests := requests s @ [req]\<rparr>) req
           (\<lambda>response s1.
              case response of
                FetchThrows \<Rightarrow> Completed (s1\<lparr>error := ''Failed to fetch tasks''\<rparr>)
              | Response ok js \<Rightarrow>
                  AwaitJson s1
                    (\<lambda>s2. case js of
                            JsonThrows \<Rightarrow> Completed (s2\<lparr>error := ''Failed to fetch tasks''\<rparr>)
                          | Json data \<Rightarrow> Completed (s2\<lparr>tasks := data_tasks data\<rparr>))))"

definition confirmMove_async :: "calendar \<Rightarrow> handler" where
  "confirmMove_async s =
     (case pendingMove s of
        None \<Rightarrow> Completed s
      | Some pm \<Rightarrow>
          let s1 = s\<lparr>loading := True, error := []\<rparr>;
              req = move_request pm
          in AwaitFetch (s1\<lparr>requests := requests s1 @ [req]\<rparr>) req
               (\<lambda>response s2.
                  case response of
                    FetchThrows \<Rightarrow>
                      Completed (s2\<lparr>error := ''Failed to move task'', pendingMove := None,
                                    loading := False\<rparr>)
                  | Response ok js \<Rightarrow>
                      if ok
                      then and_then (fetchTasks_async (s2\<lparr>pendingMove := None\<rparr>))
                             (\<lambda>s3. Completed (s3\<lparr>loading := False\<rparr>))
                      else
                        AwaitJson s2
                          (\<lambda>s3. case js of
                                  JsonThrows \<Rightarrow>
                                    Completed (s3\<lparr>error := ''Failed to move task'',
                                                  pendingMove := None, loading := False\<rparr>)
                                | Json data \<Rightarrow>
                                    Completed
                                      (s3\<lparr>error := or_else (data_error data) ''Failed to move task'',
                                          pendingMove := None, loading := False\<rparr>))))"

text \<open>
  A run with nothing else happening at the suspension points: the state the handler
  completes with, and the suspension points it passes, in order, each with the refs as
  they are while it is suspended there.
\<close>

datatype pause = PendingFetch request | PendingJson

primrec complete :: "HousekeepingTask store \<Rightarrow> handler \<Rightarrow> calendar" where
  "complete store (Completed s) = s"
| "complete store (AwaitFetch s req k) = complete store (k (store (requests s)) s)"
| "complete store (AwaitJson s k) = complete store (k s)"

primrec suspensions :: "HousekeepingTask store \<Rightarrow> handler \<Rightarrow> (pause \<times> calendar) list" where
  "suspensions store (Completed s) = []"
| "suspensions store (AwaitFetch s req k) =
     (PendingFetch req, s) # suspensions store (k (store (requests s)) s)"
| "suspensions store (AwaitJson s k) = (PendingJson, s) # suspensions store (k s)"

subsection \<open>The handlers as events\<close>

text \<open>
  Everything that writes the refs of the component after it is mounted: the two fetches,
  the handlers bound in the template, the resize listener, the timer of \<open>navigateDays\<close>
  and the \<open>v-model\<close> of the status filter.
\<close>

datatype event =
    FetchRooms
  | FetchTasks
  | NavigateDays int
  | TransitionEnd
  | GoToToday Date
  | ChangeDaysToShow int
  | UpdateContainerWidth "int option"
  | SelectStatusFilter string
  | DragStart HousekeepingTask Date
  | DragOver
  | Drop Date
  | ConfirmMove
  | CancelMove

fun dispatch :: "TimeZone \<Rightarrow> HousekeepingTask store \<Rightarrow> calendar \<Rightarrow> event \<Rightarrow> calendar" where
  "dispatch zone store s FetchRooms = fetchRooms store s"
| "dispatch zone store s FetchTasks = fetchTasks store s"
| "dispatch zone store s (NavigateDays offset) = navigateDays zone s offset"
| "dispatch zone store s TransitionEnd = transitionEnd s"
| "dispatch zone store s (GoToToday now) = goToToday zone now s"
| "dispatch zone store s (ChangeDaysToShow days) = changeDaysToShow s days"
| "dispatch zone store s (UpdateContainerWidth container) = updateContainerWidth s container"
| "dispatch zone store s (SelectStatusFilter v) = s\<lparr>statusFilter := v\<rparr>"
| "dispatch zone store s (DragStart t date) = handleDragStart s t date"
| "dispatch zone store s DragOver = handleDragOver s"
| "dispatch zone store s (Drop date) = handleDrop s date"
| "dispatch zone store s ConfirmMove = confirmMove store s"
| "dispatch zone store s CancelMove = cancelMove s"

definition run :: "TimeZone \<Rightarrow> HousekeepingTask store \<Rightarrow> calendar \<Rightarrow> event list \<Rightarrow> calendar" where
  "run zone store s evs = foldl (dispatch zone store) s evs"

section \<open>HousekeepingTaskManager.vue\<close>

record manager =
  tasks_m :: "ManagedTask list"
  rooms_m :: "Room list"
  users_m :: "User list"
  loading_m :: bool
  error_m :: string
  editingTask :: "ManagedTask option"
  dateFilter :: string
  statusFilter_m :: string
  userFilter :: string
  formData :: TaskForm
  requests_m :: "request list"

text \<open>
  \<^verbatim>\<open>
  const fetchTasks = async () => {
    try {
      const params = new URLSearchParams()
      if (dateFilter.value) params.append('date', dateFilter.value)
      if (statusFilter.value !== 'all') params.append('status', statusFilter.value)
      if (userFilter.value !== 'all') params.append('userId', userFilter.value)
      const queryString = params.toString()
      const url = queryString ? `${API_URL}/housekeeping-tasks?${queryString}`
                              : `${API_URL}/housekeeping-tasks`
      const response = await fetch(url)
      const data = await response.json()
      tasks.value = data.tasks
    } catch (e) {
      error.value = 'Failed to fetch tasks'
    }
  }
  \<close>
\<close>

definition fetchTasks_m :: "ManagedTask store \<Rightarrow> manager \<Rightarrow> manager" where
  "fetchTasks_m store s =
     (let params = (if dateFilter s \<noteq> [] then [(''date'', dateFilter s)] else [])
                   @ (if statusFilter_m s \<noteq> ''all'' then [(''status'', statusFilter_m s)] else [])
                   @ (if userFilter s \<noteq> ''all'' then [(''userId'', userFilter s)] else []);
          s1 = s\<lparr>requests_m := requests_m s @ [get_request ''/housekeeping-tasks'' params]\<rparr>
      in case store (requests_m s1) of
           FetchThrows \<Rightarrow> s1\<lparr>error_m := ''Failed to fetch tasks''\<rparr>
         | Response ok js \<Rightarrow>
             (case js of
                JsonThrows \<Rightarrow> s1\<lparr>error_m := ''Failed to fetch tasks''\<rparr>
              | Json data \<Rightarrow> s1\<lparr>tasks_m := data_tasks data\<rparr>))"

text \<open>\<open>resetForm\<close> reads the clock for the default task date: \<open>now\<close> is \<open>new Date()\<close>.\<close>

definition resetForm :: "Date \<Rightarrow> manager \<Rightarrow> manager" where
  "resetForm now s =
     s\<lparr>formData :=
         \<lparr>roomId_form = [], assignedUserId_form = [], taskDate_form = formatDateISO now,
          taskType_form = ''cleaning'', priority_form = ''medium'', status_form = ''pending'',
          notes_form = []\<rparr>,
       editingTask := None,
       error_m := []\<rparr>"

definition stringify_form :: "TaskForm \<Rightarrow> json_object" where
  "stringify_form f =
     [(''roomId'', roomId_form f), (''assignedUserId'', assignedUserId_form f),
      (''taskDate'', taskDate_form f), (''taskType'', taskType_form f),
      (''priority'', priority_form f), (''status'', status_form f), (''notes'', notes_form f)]"

text \<open>
  \<^verbatim>\<open>
  const addTask = async () => {
    if (!formData.value.roomId || !formData.value.assignedUserId || !formData.value.taskDate) {
      error.value = 'Room, assigned user, and task date are required'
      return
    }
    loading.value = true
    error.value = ''
    try {
      const response = await fetch(`${API_URL}/housekeeping-tasks`, {
        method: 'POST',
        headers: { 'Content-Type': 'application/json' },
        body: JSON.stringify(formData.value)
      })
      const data = await response.json()
      if (response.ok) {
        resetForm()
        await fetchTasks()
      } else {
        error.value = data.error || 'Failed to add task'
      }
    } catch (e) {
      error.value = 'Failed to add task'
    } finally {
      loading.value = false
    }
  }
  \<close>
\<close>

definition addTask :: "ManagedTask store \<Rightarrow> Date \<Rightarrow> manager \<Rightarrow> manager" where
  "addTask store now s =
     (if roomId_form (formData s) = [] \<or> assignedUserId_form (formData s) = []
         \<or> taskDate_form (formData s) = []
      then s\<lparr>error_m := ''Room, assigned user, and task date are required''\<rparr>
      else
        let s1 = s\<lparr>loading_m := True, error_m := []\<rparr>;
            s2 = s1\<lparr>requests_m := requests_m s1
                       @ [json_request POST ''/housekeeping-tasks'' (stringify_form (formData s1))]\<rparr>;
            s3 = (case store (requests_m s2) of
                    FetchThrows \<Rightarrow> s2\<lparr>error_m := ''Failed to add task''\<rparr>
                  | Response ok js \<Rightarrow>
                      (case js of
                         JsonThrows \<Rightarrow> s2\<lparr>error_m := ''Failed to add task''\<rparr>
                       | Json data \<Rightarrow>
                           if ok then fetchTasks_m store (resetForm now s2)
                           else s2\<lparr>error_m := or_else (data_error data) ''Failed to add task''\<rparr>))
        in s3\<lparr>loading_m := False\<rparr>)"

section \<open>Notions used in the statements\<close>

text \<open>
  The sort key of a room: the number \<open>parseInt\<close> reads at the front of its label, and
  0 when it reads none. Keys are compared as numbers, the infinities at the two ends;
  \<open>number_rank\<close> places a number in that order.
\<close>

definition roomKey :: "Room \<Rightarrow> number" where
  "roomKey r = (case parseInt (roomNumber r) of NaN \<Rightarrow> Finite 0 | v \<Rightarrow> v)"

fun number_rank :: "number \<Rightarrow> int \<times> int" where
  "number_rank NegInf = (- 1, 0)"
| "number_rank (Finite n) = (0, n)"
| "number_rank PosInf = (1, 0)"
| "number_rank NaN = (2, 0)"

definition number_le :: "number \<Rightarrow> number \<Rightarrow> bool" where
  "number_le a b = (number_rank a \<le> number_rank b)"

text \<open>The number of the local calendar day a date falls on.\<close>

definition localDay :: "TimeZone \<Rightarrow> Date \<Rightarrow> int" where
  "localDay zone d = Day (LocalTime zone d)"

text \<open>The pending moves a state holds, as a list.\<close>

definition pendingMoves :: "calendar \<Rightarrow> PendingMove list" where
  "pendingMoves s = (case pendingMove s of None \<Rightarrow> [] | Some pm \<Rightarrow> [pm])"

text \<open>
  The two refs of a drag go together: both are \<open>null\<close>, or a task is held with the ISO
  date of the cell it was picked up from.
\<close>

definition drag_consistent :: "calendar \<Rightarrow> bool" where
  "drag_consistent s =
     (case draggedTask s of
        None \<Rightarrow> draggedFromDate s = None
      | Some t \<Rightarrow> (\<exists>origin. draggedFromDate s = Some (formatDateISO origin)))"

section \<open>Concrete inputs\<close>

text \<open>
  The states, dates and stores at which the theorems below are instantiated. The task is
  the one of the scenario in the specification (id 1, room R1, 2024-06-01, pending); the
  dates are 10:00 UTC on the first four days of June 2024.
\<close>

definition fixed_zone :: "int \<Rightarrow> TimeZone" where
  "fixed_zone c = \<lparr>offsetAtUTC = (\<lambda>t. c), offsetAtLocal = (\<lambda>t. c)\<rparr>"

text \<open>
  Europe/London by its rules of 2024: summer time, one hour ahead, from
  2024-03-31T01:00Z to 2024-10-27T01:00Z. The local hour from 01:00 on 31 March is
  skipped and read with the offset before the change; the local hour from 01:00 on
  27 October occurs twice and is read with the offset before the change as well.
\<close>

definition europe_london :: TimeZone where
  "europe_london =
     \<lparr>offsetAtUTC = (\<lambda>t. if 1711846800000 \<le> t \<and> t < 1729990800000 then 3600000 else 0),
      offsetAtLocal = (\<lambda>t. if 1711850400000 \<le> t \<and> t < 1729994400000 then 3600000 else 0)\<rparr>"

text \<open>
  Pacific/Apia at the end of 2011: ten hours behind UTC until 2011-12-30T10:00Z and
  fourteen hours ahead from then on, so that 29 December was followed by 31 December.
  The local times of the skipped day are read with the offset before the change.
\<close>

definition pacific_apia :: TimeZone where
  "pacific_apia =
     \<lparr>offsetAtUTC = (\<lambda>t. if t < 1325239200000 then - 36000000 else 50400000),
      offsetAtLocal = (\<lambda>t. if t < 1325289600000 then - 36000000 else 50400000)\<rparr>"

definition room_labelled :: "string \<Rightarrow> Room" where
  "room_labelled label =
     \<lparr>id_room = label, roomNumber = utf16 label, roomTypeName = None, floor_room = None,
      status_room = ''available''\<rparr>"

definition task1 :: HousekeepingTask where
  "task1 =
     \<lparr>id_task = ''1'', roomId = ''R1'', roomNumber_task = None, assignedUserId = ''U1'',
      assignedUserName = None, taskDate = ''2024-06-01'', taskType = ''cleaning'',
      priority = ''medium'', status_task = ''pending'', notes_task = None, startedAt = None,
      completedAt = None\<rparr>"

definition task2 :: HousekeepingTask where
  "task2 = task1\<lparr>id_task := ''2'', taskDate := ''2024-06-02'', taskType := ''inspection''\<rparr>"

definition june1 :: Date where "june1 = 1717236000000"

definition june2 :: Date where "june2 = 1717322400000"

definition june3 :: Date where "june3 = 1717408800000"

definition june4 :: Date where "june4 = 1717495200000"

definition calendar0 :: calendar where
  "calendar0 =
     \<lparr>rooms = [room_labelled ''R1''], tasks = [task1], loading = False, error = [],
      startDate = 1717236000000, daysToShow = 7, containerWidth = 0,
      transitionDirection = None, draggedTask = None, draggedFromDate = None,
      pendingMove = None, statusFilter = ''all'', requests = []\<rparr>"

definition calendar1 :: calendar where
  "calendar1 = calendar0\<lparr>tasks := [task1, task2]\<rparr>"

text \<open>
  A calendar of three days from 00:30 on 30 March 2024 in London, and one of four days
  from 10:00 on 28 December 2011 in Apia (20:00Z).
\<close>

definition calendar_london :: calendar where
  "calendar_london = calendar0\<lparr>startDate := 1711758600000, daysToShow := 3\<rparr>"

definition calendar_apia :: calendar where
  "calendar_apia = calendar0\<lparr>startDate := 1325102400000, daysToShow := 4\<rparr>"

definition move1 :: PendingMove where
  "move1 = \<lparr>task = task1, fromDate = ''2024-06-01'', toDate = ''2024-06-03''\<rparr>"

definition move2 :: PendingMove where
  "move2 = \<lparr>task = task2, fromDate = ''2024-06-02'', toDate = ''2024-06-04''\<rparr>"

text \<open>
  Three stores: one that applies every date patch it has received and returns the task
  list, one that rejects every request with a message, and one that cannot be reached.
\<close>

definition patch_task :: "request \<Rightarrow> HousekeepingTask \<Rightarrow> HousekeepingTask" where
  "patch_task r t =
     (if req_method r = PUT \<and> req_url r = API_URL @ ''/housekeeping-tasks/'' @ id_task t
      then (case req_body r of
              Some [(k, v)] \<Rightarrow> if k = ''taskDate'' then t\<lparr>taskDate := v\<rparr> else t
            | _ \<Rightarrow> t)
      else t)"

definition backend :: "HousekeepingTask list \<Rightarrow> HousekeepingTask store" where
  "backend db reqs =
     Response True
       (Json \<lparr>data_tasks = foldl (\<lambda>ts r. map (patch_task r) ts) db reqs,
              data_rooms = [room_labelled ''R1''], data_users = [], data_error = None\<rparr>)"

definition rejecting :: "string \<Rightarrow> HousekeepingTask store" where
  "rejecting msg reqs =
     Response False
       (Json \<lparr>data_tasks = [], data_rooms = [], data_users = [], data_error = Some msg\<rparr>)"

definition offline :: "HousekeepingTask store" where
  "offline reqs = FetchThrows"

definition unreachable :: "ManagedTask store" where
  "unreachable reqs = FetchThrows"

text \<open>The calendar after task 1 was dragged from 1 June and dropped on 3 June.\<close>

definition staged :: calendar where
  "staged = run (fixed_zone 0) offline calendar1 [DragStart task1 june1, Drop june3]"

definition manager0 :: manager where
  "manager0 =
     \<lparr>tasks_m = [], rooms_m = [room_labelled ''R1''], users_m = [], loading_m = False,
      error_m = [], editingTask = None, dateFilter = [], statusFilter_m = ''all'',
      userFilter = ''all'',
      formData = \<lparr>roomId_form = [], assignedUserId_form = ''U1'', taskDate_form = ''2024-06-01'',
                  taskType_form = ''cleaning'', priority_form = ''medium'',
                  status_form = ''pending'', notes_form = []\<rparr>,
      requests_m = []\<rparr>"

section \<open>Facts about the runtime functions\<close>

declare dates_loop.simps [simp del]

declare yearFrom.simps [simp del]

text \<open>The search of \<open>YearFromTime\<close> finds the year ECMA-262 defines.\<close>

lemma DayFromYear_1970: "DayFromYear 1970 = 0"
  by (simp add: DayFromYear_def)

lemma DayFromYear_upper: "1970 \<le> y \<Longrightarrow> DayFromYear y \<le> 366 * (y - 1970)"
proof (induction y rule: int_ge_induct)
  case base
  show ?case by (simp add: DayFromYear_1970)
next
  case (step y)
  have "DaysInYear y \<le> 366" by (simp add: DaysInYear_def)
  with step.IH show ?case by (simp add: DayFromYear_Suc)
qed

lemma DayFromYear_lower: "y \<le> 1970 \<Longrightarrow> DayFromYear y \<le> 365 * (y - 1970)"
proof (induction y rule: int_le_induct)
  case base
  show ?case by (simp add: DayFromYear_1970)
next
  case (step y)
  have "365 \<le> DaysInYear (y - 1)" by (simp add: DaysInYear_def)
  moreover have "DayFromYear y = DayFromYear (y - 1) + DaysInYear (y - 1)"
    using DayFromYear_Suc [of "y - 1"] by simp
  ultimately show ?case using step.IH by simp
qed

lemma yearFrom_below: "d < DayFromYear (yearFrom d y + 1)"
proof (induction d y rule: yearFrom.induct)
  case (1 d y)
  show ?case
  proof (cases "DayFromYear (y + 1) \<le> d")
    case True
    with "1.IH" show ?thesis by (subst yearFrom.simps) simp
  next
    case False
    then show ?thesis by (subst yearFrom.simps) simp
  qed
qed

lemma yearFrom_above: "DayFromYear y \<le> d \<Longrightarrow> DayFromYear (yearFrom d y) \<le> d"
proof (induction d y rule: yearFrom.induct)
  case (1 d y)
  show ?case
  proof (cases "DayFromYear (y + 1) \<le> d")
    case True
    with "1.IH" show ?thesis by (subst yearFrom.simps) simp
  next
    case False
    with "1.prems" show ?thesis by (subst yearFrom.simps) simp
  qed
qed

lemma YearFromTime_largest:
  "DayFromYear (YearFromTime t) \<le> Day t \<and> Day t < DayFromYear (YearFromTime t + 1)"
proof -
  define d where "d = Day t"
  define y0 where "y0 = 1970 + (if 0 \<le> d then d div 366 else d div 365)"
  have "DayFromYear y0 \<le> d"
  proof (cases "0 \<le> d")
    case True
    then have "1970 \<le> y0" by (simp add: y0_def pos_imp_zdiv_nonneg_iff)
    then have "DayFromYear y0 \<le> 366 * (y0 - 1970)" by (rule DayFromYear_upper)
    also have "\<dots> = 366 * (d div 366)" using True by (simp add: y0_def)
    also have "\<dots> \<le> d" by (simp add: algebra_simps)
    finally show ?thesis .
  next
    case False
    then have "d div 365 \<le> 0" using zdiv_mono1 [of d 0 365] by simp
    then have "y0 \<le> 1970" using False by (simp add: y0_def)
    then have "DayFromYear y0 \<le> 365 * (y0 - 1970)" by (rule DayFromYear_lower)
    also have "\<dots> = 365 * (d div 365)" using False by (simp add: y0_def)
    also have "\<dots> \<le> d" by (simp add: algebra_simps)
    finally show ?thesis .
  qed
  then have "DayFromYear (yearFrom d y0) \<le> d" by (rule yearFrom_above)
  moreover have "d < DayFromYear (yearFrom d y0 + 1)" by (rule yearFrom_below)
  moreover have "YearFromTime t = yearFrom d y0"
    unfolding YearFromTime_def Let_def d_def y0_def ..
  ultimately show ?thesis
    unfolding d_def by simp
qed

text \<open>
  An ISO date is never the empty string: it starts with a digit or a sign, so the part
  before the first \<open>T\<close> has at least that character.
\<close>

lemma digitChar_not_T: "digitChar (n mod 10) \<noteq> CHR ''T''"
proof
  assume "digitChar (n mod 10) = CHR ''T''"
  then have "(of_char (digitChar (n mod 10)) :: nat) = of_char CHR ''T''" by simp
  moreover have "0 \<le> n mod 10" "n mod 10 < 10" by simp_all
  ultimately show False
    by (simp add: digitChar_def)
qed

lemma padDigits_Suc_hd:
  "\<exists>c cs. padDigits (Suc k) n = c # cs \<and> c \<noteq> CHR ''T''"
proof (induction k arbitrary: n)
  case 0
  show ?case by (simp add: digitChar_not_T)
next
  case (Suc k)
  from Suc.IH [of "n div 10"] obtain c cs
    where "padDigits (Suc k) (n div 10) = c # cs" "c \<noteq> CHR ''T''" by blast
  then show ?case by simp
qed

lemma isoYear_hd: "\<exists>c cs. isoYear y = c # cs \<and> c \<noteq> CHR ''T''"
proof -
  from padDigits_Suc_hd [of 3 y] have "\<exists>c cs. padDigits 4 y = c # cs \<and> c \<noteq> CHR ''T''"
    by (simp add: numeral_eq_Suc)
  then show ?thesis
    by (auto simp: isoYear_def)
qed

lemma formatDateISO_nonempty: "formatDateISO d \<noteq> []"
proof -
  from isoYear_hd [of "YearFromTime d"] obtain c cs
    where "isoYear (YearFromTime d) = c # cs" "c \<noteq> CHR ''T''" by blast
  then show ?thesis
    by (simp add: formatDateISO_def toISOString_def)
qed

text \<open>
  \<open>date.setDate (date.getDate () + i)\<close> moves the local time of a date by \<open>i\<close> whole
  days, across the ends of months and years, and reads the result back in the zone.
\<close>

lemma setDate_getDate:
  "setDate zone d (getDate zone d + i) = UTC zone (LocalTime zone d + i * msPerDay)"
proof -
  define t where "t = LocalTime zone d"
  have m: "0 \<le> MonthFromTime t \<and> MonthFromTime t < 12"
    by (simp add: MonthFromTime_def Let_def)
  then have "MonthFromTime t div 12 = 0" "MonthFromTime t mod 12 = MonthFromTime t"
    by simp_all
  then have "MakeDay (YearFromTime t) (MonthFromTime t) (DateFromTime t + i) = Day t + i"
    by (simp add: MakeDay_def DateFromTime_def DayWithinYear_def InLeapYear_def Let_def)
  moreover have "Day t * msPerDay + TimeWithinDay t = t"
    by (simp add: Day_def TimeWithinDay_def)
  ultimately have "MakeDate (MakeDay (YearFromTime t) (MonthFromTime t) (DateFromTime t + i))
      (TimeWithinDay t) = t + i * msPerDay"
    by (simp add: MakeDate_def algebra_simps)
  then show ?thesis
    by (simp add: setDate_def getDate_def Let_def t_def [symmetric])
qed

lemma LocalTime_fixed_zone: "LocalTime (fixed_zone c) t = t + c"
  by (simp add: LocalTime_def fixed_zone_def)

lemma UTC_fixed_zone: "UTC (fixed_zone c) t = t - c"
  by (simp add: UTC_def fixed_zone_def)

lemma Day_shift: "Day (t + k * msPerDay) = Day t + k"
  by (simp add: Day_def msPerDay_def)

lemma formatDateISO_june:
  "formatDateISO june1 = ''2024-06-01''"
  "formatDateISO june2 = ''2024-06-02''"
  "formatDateISO june3 = ''2024-06-03''"
  "formatDateISO june4 = ''2024-06-04''"
  unfolding june1_def june2_def june3_def june4_def by code_simp+

section \<open>The layout calculator\<close>

lemma calculateDaysToShow_div:
  "calculateDaysToShow w = max 3 (min 30 ((w - 120) div 100))"
  using floor_divide_of_int_eq [of "w - 120" 100, where ?'a = real]
  by (simp add: calculateDaysToShow_def ROOM_COLUMN_WIDTH_def DATE_COLUMN_WIDTH_def Let_def)

text \<open>
  Claim C5. For every pixel width \<open>w\<close>, degenerate ones included, the layout calculator
  returns \<open>floor ((w - roomColumnWidth) / dateColumnWidth)\<close> clamped to the interval
  from 3 to 30. So the result lies in that interval, it never decreases when the width
  grows, and a width of at most 0 or at most the room column's yields exactly 3. The
  function is total: there is no input on which it fails.
\<close>

theorem calculateDaysToShow_clamped_floor:
  "calculateDaysToShow w =
     max 3 (min 30 \<lfloor>(real_of_int w - real_of_int ROOM_COLUMN_WIDTH)
                       / real_of_int DATE_COLUMN_WIDTH\<rfloor>)
   \<and> 3 \<le> calculateDaysToShow w \<and> calculateDaysToShow w \<le> 30
   \<and> (w \<le> w' \<longrightarrow> calculateDaysToShow w \<le> calculateDaysToShow w')
   \<and> (w \<le> 0 \<or> w \<le> ROOM_COLUMN_WIDTH \<longrightarrow> calculateDaysToShow w = 3)"
proof -
  have form: "calculateDaysToShow w =
     max 3 (min 30 \<lfloor>(real_of_int w - real_of_int ROOM_COLUMN_WIDTH)
                       / real_of_int DATE_COLUMN_WIDTH\<rfloor>)"
    by (simp add: calculateDaysToShow_def Let_def)
  have range: "3 \<le> calculateDaysToShow w \<and> calculateDaysToShow w \<le> 30"
    by (simp add: calculateDaysToShow_div)
  have mono: "calculateDaysToShow w \<le> calculateDaysToShow w'" if "w \<le> w'"
  proof -
    from that have "(w - 120) div 100 \<le> (w' - 120) div 100"
      by (intro zdiv_mono1) simp_all
    then show ?thesis
      unfolding calculateDaysToShow_div by linarith
  qed
  have degenerate: "calculateDaysToShow w = 3" if "w \<le> 0 \<or> w \<le> ROOM_COLUMN_WIDTH"
  proof -
    from that have "w - 120 \<le> 0"
      by (auto simp: ROOM_COLUMN_WIDTH_def)
    then have "(w - 120) div 100 \<le> 0"
      using zdiv_mono1 [of "w - 120" 0 100] by simp
    then show ?thesis
      unfolding calculateDaysToShow_div by linarith
  qed
  from form range mono degenerate show ?thesis by blast
qed

theorem calculateDaysToShow_clamped_floor_witness:
  "(120::int) \<le> 1000 \<and> (120::int) \<le> ROOM_COLUMN_WIDTH
   \<and> calculateDaysToShow 120 = 3 \<and> calculateDaysToShow 1000 = 8
   \<and> calculateDaysToShow 120 \<le> calculateDaysToShow 1000"
  using calculateDaysToShow_clamped_floor [of 120 1000]
  by (simp add: ROOM_COLUMN_WIDTH_def calculateDaysToShow_div)

section \<open>The calendar grid\<close>

subsection \<open>Date columns\<close>

lemma dates_loop_eq:
  "0 \<le> i \<Longrightarrow> dates_loop zone n start i acc
     = acc @ map (\<lambda>k. UTC zone (LocalTime zone start + int k * msPerDay)) [nat i..<nat n]"
proof (induction zone n start i acc rule: dates_loop.induct)
  case (1 zone n start i dateArray)
  show ?case
  proof (cases "i < n")
    case True
    with "1.prems" have upt: "[nat i..<nat n] = nat i # [nat (i + 1)..<nat n]"
      by (simp add: upt_conv_Cons nat_add_distrib)
    have "dates_loop zone n start i dateArray
        = dates_loop zone n start (i + 1) (dateArray @ [setDate zone start (getDate zone start + i)])"
      using True by (subst dates_loop.simps) simp
    also have "\<dots> = (dateArray @ [setDate zone start (getDate zone start + i)])
        @ map (\<lambda>k. UTC zone (LocalTime zone start + int k * msPerDay)) [nat (i + 1)..<nat n]"
      using True "1.prems" by (intro "1.IH") simp_all
    also have "\<dots> = dateArray
        @ map (\<lambda>k. UTC zone (LocalTime zone start + int k * msPerDay)) [nat i..<nat n]"
      using "1.prems" by (simp only: upt setDate_getDate) simp
    finally show ?thesis .
  next
    case False
    then have "dates_loop zone n start i dateArray = dateArray"
      by (subst dates_loop.simps) simp
    moreover from False have "[nat i..<nat n] = []" by simp
    ultimately show ?thesis by simp
  qed
qed

lemma dates_eq:
  "dates zone s
     = map (\<lambda>k. UTC zone (LocalTime zone (startDate s) + int k * msPerDay))
         [0..<nat (daysToShow s)]"
  by (simp add: dates_def dates_loop_eq)

text \<open>
  Claim C6 says that for every day count from 3 to 30 and every start date the range
  holds that many calendar dates, consecutive from the start date on. The dates are built
  in local time and read back through the zone, so a transition inside the range breaks
  this. In London, three days from 00:30 on 30 March 2024 fall on 30 March, 31 March and
  1 April locally, but the third is only 23 hours after the second and the ISO dates that
  key the cells are 30, 31 and 31 March. In Apia, four days from 28 December 2011 give
  the local days 28, 29, 31 and 31: the last two columns are the same instant.
\<close>

theorem dates_across_transition:
  "3 \<le> daysToShow calendar_london \<and> daysToShow calendar_london \<le> 30
   \<and> dates europe_london calendar_london = [1711758600000, 1711845000000, 1711927800000]
   \<and> map (getDate europe_london) (dates europe_london calendar_london) = [30, 31, 1]
   \<and> map formatDateISO (dates europe_london calendar_london)
       = [''2024-03-30'', ''2024-03-31'', ''2024-03-31'']
   \<and> 3 \<le> daysToShow calendar_apia \<and> daysToShow calendar_apia \<le> 30
   \<and> dates pacific_apia calendar_apia
       = [1325102400000, 1325188800000, 1325275200000, 1325275200000]
   \<and> map (getDate pacific_apia) (dates pacific_apia calendar_apia) = [28, 29, 31, 31]
   \<and> map formatDateISO (dates pacific_apia calendar_apia)
       = [''2011-12-28'', ''2011-12-29'', ''2011-12-30'', ''2011-12-30'']"
  by code_simp

text \<open>
  Claim C6, amended. For every day count \<open>d\<close> from 3 to 30, every start date and every
  zone, the date range has exactly \<open>d\<close> entries, and entry \<open>k\<close> is the local time of the
  start date \<open>k\<close> days later, read back in the zone. Where the zone reads each of these
  local times back unchanged (none of them is skipped by a transition), the entries fall
  on \<open>d\<close> consecutive local calendar days, the first being the day of the start date.
  In a zone of constant offset, entry \<open>k\<close> is the start date plus \<open>k\<close> days exactly, the
  first entry is the start date, and the UTC days are consecutive as well.
\<close>

theorem dates_consecutive:
  assumes "3 \<le> daysToShow s" and "daysToShow s \<le> 30"
  shows "int (length (dates zone s)) = daysToShow s
    \<and> dates zone s
        = map (\<lambda>k. UTC zone (LocalTime zone (startDate s) + int k * msPerDay))
            [0..<nat (daysToShow s)]
    \<and> ((\<forall>k < nat (daysToShow s).
           LocalTime zone (UTC zone (LocalTime zone (startDate s) + int k * msPerDay))
             = LocalTime zone (startDate s) + int k * msPerDay)
        \<longrightarrow> map (localDay zone) (dates zone s)
             = map (\<lambda>k. localDay zone (startDate s) + int k) [0..<nat (daysToShow s)])
    \<and> dates (fixed_zone c) s
        = map (\<lambda>k. startDate s + int k * msPerDay) [0..<nat (daysToShow s)]
    \<and> hd (dates (fixed_zone c) s) = startDate s
    \<and> map Day (dates (fixed_zone c) s)
        = map (\<lambda>k. Day (startDate s) + int k) [0..<nat (daysToShow s)]"
proof -
  let ?n = "nat (daysToShow s)"
  let ?L = "LocalTime zone (startDate s)"
  have eq: "dates zone s = map (\<lambda>k. UTC zone (?L + int k * msPerDay)) [0..<?n]"
    by (rule dates_eq)
  from assms have len: "int (length (dates zone s)) = daysToShow s"
    by (simp add: eq)
  have loc: "map (localDay zone) (dates zone s) = map (\<lambda>k. localDay zone (startDate s) + int k) [0..<?n]"
    if unskipped: "\<forall>k < ?n. LocalTime zone (UTC zone (?L + int k * msPerDay)) = ?L + int k * msPerDay"
  proof -
    have "localDay zone (UTC zone (?L + int k * msPerDay)) = localDay zone (startDate s) + int k"
      if "k < ?n" for k
      using unskipped that Day_shift [of ?L "int k"] by (simp add: localDay_def)
    then show ?thesis
      by (simp add: eq)
  qed
  have fixed: "dates (fixed_zone c) s = map (\<lambda>k. startDate s + int k * msPerDay) [0..<?n]"
    by (simp add: dates_eq LocalTime_fixed_zone UTC_fixed_zone)
  from assms have "[0..<?n] = 0 # [1..<?n]"
    by (simp add: upt_conv_Cons)
  then have first: "hd (dates (fixed_zone c) s) = startDate s"
    by (simp add: fixed)
  have utc: "map Day (dates (fixed_zone c) s) = map (\<lambda>k. Day (startDate s) + int k) [0..<?n]"
    by (simp add: fixed Day_shift)
  from len eq loc fixed first utc show ?thesis by blast
qed

theorem dates_consecutive_witness:
  "3 \<le> daysToShow calendar_london \<and> daysToShow calendar_london \<le> 30
   \<and> list_all
        (\<lambda>k. LocalTime europe_london
               (UTC europe_london
                  (LocalTime europe_london (startDate calendar_london) + int k * msPerDay))
             = LocalTime europe_london (startDate calendar_london) + int k * msPerDay)
        [0..<nat (daysToShow calendar_london)]
   \<and> length (dates europe_london calendar_london) = 3
   \<and> map (localDay europe_london) (dates europe_london calendar_london)
       = map (\<lambda>k. localDay europe_london (startDate calendar_london) + int k) [0..<3]
   \<and> hd (dates (fixed_zone 0) calendar_london) = 1711758600000"
proof -
  have h: "3 \<le> daysToShow calendar_london" "daysToShow calendar_london \<le> 30"
    by (simp_all add: calendar_london_def calendar0_def)
  have n: "nat (daysToShow calendar_london) = 3"
    and st: "startDate calendar_london = 1711758600000"
    by (simp_all add: calendar_london_def calendar0_def)
  have unskipped: "\<forall>k < nat (daysToShow calendar_london).
         LocalTime europe_london
           (UTC europe_london
              (LocalTime europe_london (startDate calendar_london) + int k * msPerDay))
         = LocalTime europe_london (startDate calendar_london) + int k * msPerDay"
    unfolding n st
    by (auto simp: LocalTime_def UTC_def europe_london_def msPerDay_def)
  from dates_consecutive [OF h, of europe_london 0] unskipped
  have "int (length (dates europe_london calendar_london)) = daysToShow calendar_london"
    and "map (localDay europe_london) (dates europe_london calendar_london)
       = map (\<lambda>k. localDay europe_london (startDate calendar_london) + int k)
           [0..<nat (daysToShow calendar_london)]"
    and "hd (dates (fixed_zone 0) calendar_london) = startDate calendar_london"
    by blast+
  moreover from unskipped
  have "list_all
        (\<lambda>k. LocalTime europe_london
               (UTC europe_london
                  (LocalTime europe_london (startDate calendar_london) + int k * msPerDay))
             = LocalTime europe_london (startDate calendar_london) + int k * msPerDay)
        [0..<nat (daysToShow calendar_london)]"
    by (simp add: list_all_iff)
  ultimately show ?thesis
    using h n st by simp
qed

text \<open>The seven columns of the first week of June 2024, in a zone ten hours east.\<close>

lemma dates_example:
  "map formatDateISO (dates (fixed_zone 36000000) calendar0) =
     [''2024-06-01'', ''2024-06-02'', ''2024-06-03'', ''2024-06-04'', ''2024-06-05'',
      ''2024-06-06'', ''2024-06-07'']"
  by code_simp

subsection \<open>Room rows\<close>

lemma bitLength_bound: "0 < n \<Longrightarrow> 2 ^ (bitLength n - 1) \<le> n"
proof (induction n rule: less_induct)
  case (less n)
  show ?case
  proof (cases "n div 2 = 0")
    case True
    with less.prems have "bitLength n = 1"
      by (simp add: bitLength.simps [of n] bitLength.simps [of 0])
    with less.prems show ?thesis by simp
  next
    case False
    then have pos: "0 < n div 2" by simp
    with less.prems have "n div 2 < n" by simp
    from less.IH [OF this pos] have ih: "2 ^ (bitLength (n div 2) - 1) \<le> n div 2" .
    from pos have "0 < bitLength (n div 2)"
      by (simp add: bitLength.simps [of "n div 2"])
    then have "bitLength n - 1 = Suc (bitLength (n div 2) - 1)"
      using less.prems by (simp add: bitLength.simps [of n])
    then have "2 ^ (bitLength n - 1) = 2 * 2 ^ (bitLength (n div 2) - 1)" by simp
    also have "\<dots> \<le> 2 * (n div 2)" using ih by simp
    also have "\<dots> \<le> n" by simp
    finally show ?thesis .
  qed
qed

lemma toNumber_positive: "isPositive (toNumber n) \<longleftrightarrow> 0 < n"
proof (cases "nat \<bar>n\<bar> < 9007199254740992")
  case True
  then show ?thesis by (simp add: toNumber_def)
next
  case False
  define a where "a = nat \<bar>n\<bar>"
  define q :: nat where "q = 2 ^ (bitLength a - 1 - 52)"
  define m' where "m' = (if q < 2 * (a mod q) \<or> (2 * (a mod q) = q \<and> odd (a div q))
      then a div q + 1 else a div q)"
  from False have a: "0 < a" and n: "n \<noteq> 0" by (auto simp: a_def)
  have "q \<le> 2 ^ (bitLength a - 1)" unfolding q_def by (rule power_increasing) simp_all
  also have "\<dots> \<le> a" using a by (rule bitLength_bound)
  finally have "q \<le> a" .
  moreover have "0 < q" by (simp add: q_def)
  ultimately have "0 < a div q" by (simp add: div_greater_zero_iff)
  then have "0 < m'" by (simp add: m'_def)
  with \<open>0 < q\<close> have v: "0 < m' * q" by simp
  have "toNumber n = (if 2 ^ 1024 \<le> m' * q then (if n < 0 then NegInf else PosInf)
              else Finite (sgn n * int (m' * q)))"
    using False unfolding toNumber_def Let_def a_def [symmetric] q_def [symmetric] m'_def [symmetric]
    by (simp only: if_False)
  note tn = this
  show ?thesis
  proof (cases "2 ^ 1024 \<le> m' * q")
    case True
    with tn n show ?thesis by auto
  next
    case False
    with tn have "toNumber n = Finite (sgn n * int (m' * q))" by (simp only: if_False)
    moreover from v have "0 < int (m' * q)" by (simp only: of_nat_0_less_iff)
    ultimately show ?thesis
      using n by (simp add: zero_less_mult_iff sgn_if del: of_nat_mult)
  qed
qed

lemma toNumber_not_NaN: "toNumber n \<noteq> NaN"
  by (simp add: toNumber_def Let_def)

text \<open>
  Labels as the store may send them: a numeric prefix, no number, a no-break space in
  front, a sign and a unit, a hexadecimal prefix; and labels beyond \<open>2 ^ 53\<close>, which
  round to doubles.
\<close>

lemma parseInt_examples:
  "parseInt (utf16 ''9A'') = Finite 9"
  "parseInt (utf16 ''A9'') = NaN"
  "parseInt [0xA0, 0x35] = Finite 5"
  "parseInt (utf16 ''  -12px'') = Finite (- 12)"
  "parseInt (utf16 ''0x1f'') = Finite 31"
  by (simp_all add: parseInt_def utf16_def isWhiteSpace_def isRadixDigit_def digitValue_def
      mathInt_def toNumber_def Let_def)

lemma toNumber_rounds:
  "toNumber 9007199254740993 = Finite 9007199254740992"
  "toNumber 9007199254740992 = Finite 9007199254740992"
  "toNumber 9007199254740995 = Finite 9007199254740996"
  by (simp_all add: toNumber_def Let_def bitLength.simps)

lemma roomKey_numberOrZero: "numberOrZero (parseInt (roomNumber r)) = roomKey r"
  by (cases "parseInt (roomNumber r)") (simp_all add: numberOrZero_def roomKey_def)

lemma roomKey_not_NaN: "roomKey r \<noteq> NaN"
  by (cases "parseInt (roomNumber r)") (simp_all add: roomKey_def)

lemma number_rank_eq_iff: "number_rank a = number_rank b \<longleftrightarrow> a = b"
  by (cases a; cases b) simp_all

lemma compareRooms_rank:
  "isPositive (SortCompare (compareRooms x y))
     \<longleftrightarrow> \<not> number_rank (roomKey x) \<le> number_rank (roomKey y)"
proof -
  have "isPositive (SortCompare (number_minus a b)) \<longleftrightarrow> \<not> number_rank a \<le> number_rank b"
    if "a \<noteq> NaN" and "b \<noteq> NaN" for a b
    using that
    by (cases a; cases b)
      (simp_all add: SortCompare_def toNumber_not_NaN toNumber_positive not_le)
  from this [OF roomKey_not_NaN roomKey_not_NaN] show ?thesis
    by (simp add: compareRooms_def roomKey_numberOrZero Let_def)
qed

lemma insert_js_compareRooms:
  "insert_js compareRooms x ys = insort_key (\<lambda>r. number_rank (roomKey r)) x ys"
  by (induction ys) (simp_all add: compareRooms_rank)

lemma sort_js_compareRooms:
  "sort_js compareRooms xs = sort_key (\<lambda>r. number_rank (roomKey r)) xs"
  by (induction xs) (simp_all add: sort_js_def sort_key_def insert_js_compareRooms)

lemma filteredRooms_sort_key:
  "filteredRooms s = sort_key (\<lambda>r. number_rank (roomKey r)) (rooms s)"
  by (simp add: filteredRooms_def sort_js_compareRooms)

text \<open>
  Two labels beyond \<open>2 ^ 53\<close> that round to the same double are equal for the comparator,
  so the sort leaves them in the order of the room list.
\<close>

lemma filteredRooms_equal_doubles:
  "filteredRooms
     (calendar0\<lparr>rooms := [room_labelled ''9007199254740993'', room_labelled ''9007199254740992'']\<rparr>)
   = [room_labelled ''9007199254740993'', room_labelled ''9007199254740992'']"
proof -
  have "mathInt 10 (utf16 ''9007199254740993'') = 9007199254740993"
    and "mathInt 10 (utf16 ''9007199254740992'') = 9007199254740992"
    by (simp_all add: mathInt_def utf16_def digitValue_def)
  then have "roomKey (room_labelled ''9007199254740993'') = Finite 9007199254740992"
    and "roomKey (room_labelled ''9007199254740992'') = Finite 9007199254740992"
    by (simp_all add: roomKey_def room_labelled_def parseInt_def utf16_def isWhiteSpace_def
        isRadixDigit_def digitValue_def Let_def toNumber_rounds [simplified])
  then show ?thesis
    by (simp add: filteredRooms_sort_key)
qed

text \<open>
  Claim C7. The grid sorts the rooms in ascending order of the numeric value of the
  room-number label, a value being the Number that \<open>parseInt\<close> returns; a label with no
  number to read sorts as zero. The result is a rearrangement of the room list that keeps
  rooms of equal value in their original order. The policy is the numeric prefix: \<open>9A\<close>
  counts as 9 and \<open>A9\<close> as 0, so the labels 10, 2, 9A come out as 2, 9A, 10.
\<close>

theorem filteredRooms_sorted:
  "sorted_wrt (\<lambda>a b. number_le (roomKey a) (roomKey b)) (filteredRooms s)
   \<and> mset (filteredRooms s) = mset (rooms s)
   \<and> filter (\<lambda>r. roomKey r = k) (filteredRooms s) = filter (\<lambda>r. roomKey r = k) (rooms s)
   \<and> roomKey (room_labelled ''9A'') = Finite 9
   \<and> roomKey (room_labelled ''A9'') = Finite 0
   \<and> map roomNumber
        (filteredRooms (s\<lparr>rooms := [room_labelled ''10'', room_labelled ''2'', room_labelled ''9A'']\<rparr>))
      = [utf16 ''2'', utf16 ''9A'', utf16 ''10'']"
proof -
  have k10: "roomKey (room_labelled ''10'') = Finite 10"
    by (simp add: roomKey_def room_labelled_def parseInt_def utf16_def isWhiteSpace_def
        isRadixDigit_def digitValue_def mathInt_def toNumber_def Let_def)
  have k2: "roomKey (room_labelled ''2'') = Finite 2"
    by (simp add: roomKey_def room_labelled_def parseInt_def utf16_def isWhiteSpace_def
        isRadixDigit_def digitValue_def mathInt_def toNumber_def Let_def)
  have k9A: "roomKey (room_labelled ''9A'') = Finite 9"
    by (simp add: roomKey_def room_labelled_def parseInt_examples)
  have kA9: "roomKey (room_labelled ''A9'') = Finite 0"
    by (simp add: roomKey_def room_labelled_def parseInt_examples)
  have ex: "map roomNumber
        (filteredRooms (s\<lparr>rooms := [room_labelled ''10'', room_labelled ''2'', room_labelled ''9A'']\<rparr>))
      = [utf16 ''2'', utf16 ''9A'', utf16 ''10'']"
    by (simp add: filteredRooms_sort_key k10 k2 k9A) (simp add: room_labelled_def)
  have "sorted (map (\<lambda>r. number_rank (roomKey r)) (filteredRooms s))"
    by (simp add: filteredRooms_sort_key)
  then have ordered: "sorted_wrt (\<lambda>a b. number_le (roomKey a) (roomKey b)) (filteredRooms s)"
    by (simp add: sorted_map number_le_def)
  have perm: "mset (filteredRooms s) = mset (rooms s)"
    by (simp add: filteredRooms_sort_key)
  have "filter (\<lambda>r. number_rank (roomKey r) = number_rank k) (filteredRooms s)
      = filter (\<lambda>r. number_rank (roomKey r) = number_rank k) (rooms s)"
    unfolding filteredRooms_sort_key by (rule sort_key_stable)
  then have stable: "filter (\<lambda>r. roomKey r = k) (filteredRooms s)
      = filter (\<lambda>r. roomKey r = k) (rooms s)"
    by (simp add: number_rank_eq_iff)
  from ordered perm stable k9A kA9 ex show ?thesis by blast
qed

subsection \<open>Cells\<close>

text \<open>
  Claim C8. For every cell, given by a room and a date, the grid builder returns exactly
  the tasks of the task list whose \<open>roomId\<close> is the room and whose \<open>taskDate\<close> is the ISO
  date of the cell, restricted to the selected status unless the status filter is
  \<open>all\<close>; they come in the order of the task list, as a subsequence of it.
\<close>

theorem getTasksForRoomAndDate_subsequence:
  "getTasksForRoomAndDate s room date =
     filter (\<lambda>t. roomId t = room \<and> taskDate t = formatDateISO date
                 \<and> (statusFilter s = ''all'' \<or> status_task t = statusFilter s)) (tasks s)
   \<and> subseq (getTasksForRoomAndDate s room date) (tasks s)"
proof -
  have "getTasksForRoomAndDate s room date =
     filter (\<lambda>t. roomId t = room \<and> taskDate t = formatDateISO date
                 \<and> (statusFilter s = ''all'' \<or> status_task t = statusFilter s)) (tasks s)"
    by (auto simp: getTasksForRoomAndDate_def Let_def intro: filter_cong)
  then show ?thesis by simp
qed

section \<open>Drag and drop rescheduling\<close>

lemma or_else_nonempty: "fallback \<noteq> [] \<Longrightarrow> or_else v fallback \<noteq> []"
  by (simp add: or_else_def split: option.split)

lemma fetchTasks_frame:
  "pendingMove (fetchTasks store s) = pendingMove s"
  "loading (fetchTasks store s) = loading s"
  "rooms (fetchTasks store s) = rooms s"
  "draggedTask (fetchTasks store s) = draggedTask s"
  "draggedFromDate (fetchTasks store s) = draggedFromDate s"
  "requests (fetchTasks store s) = requests s @ [get_request ''/housekeeping-tasks'' []]"
  by (simp_all add: fetchTasks_def Let_def split: response.split json_result.split)

lemma fetchTasks_tasks:
  "tasks (fetchTasks store s) =
     (case store (requests s @ [get_request ''/housekeeping-tasks'' []]) of
        FetchThrows \<Rightarrow> tasks s
      | Response ok JsonThrows \<Rightarrow> tasks s
      | Response ok (Json data) \<Rightarrow> data_tasks data)"
  by (simp add: fetchTasks_def Let_def split: response.split json_result.split)

lemma fetchRooms_frame:
  "pendingMove (fetchRooms store s) = pendingMove s"
  "tasks (fetchRooms store s) = tasks s"
  "draggedTask (fetchRooms store s) = draggedTask s"
  "draggedFromDate (fetchRooms store s) = draggedFromDate s"
  by (simp_all add: fetchRooms_def Let_def split: response.split json_result.split)

lemma confirmMove_ok:
  assumes "pendingMove s = Some pm"
    and "store (requests s @ [move_request pm]) = Response True js"
  shows "confirmMove store s =
     (fetchTasks store (s\<lparr>loading := True, error := [],
        requests := requests s @ [move_request pm], pendingMove := None\<rparr>))\<lparr>loading := False\<rparr>"
  using assms by (simp add: confirmMove_def Let_def)

lemma confirmMove_failed:
  assumes "pendingMove s = Some pm"
    and "store (requests s @ [move_request pm]) = FetchThrows
       \<or> store (requests s @ [move_request pm]) = Response False js"
  shows "confirmMove store s =
     s\<lparr>loading := False,
       error := (case store (requests s @ [move_request pm]) of
                   Response ok (Json data) \<Rightarrow> or_else (data_error data) ''Failed to move task''
                 | _ \<Rightarrow> ''Failed to move task''),
       requests := requests s @ [move_request pm], pendingMove := None\<rparr>"
  using assms by (auto simp: confirmMove_def Let_def split: json_result.split)

lemma confirmMove_drag:
  "draggedTask (confirmMove store s) = draggedTask s"
  "draggedFromDate (confirmMove store s) = draggedFromDate s"
  by (simp_all add: confirmMove_def Let_def fetchTasks_frame
      split: option.split response.split json_result.split)

lemma staged_eq: "staged = calendar1\<lparr>pendingMove := Some move1\<rparr>"
  by (simp add: staged_def run_def handleDragStart_def handleDrop_def formatDateISO_june
      calendar1_def calendar0_def move1_def Let_def)

lemma backend_move1:
  "backend [task1, task2] (requests staged @ [move_request move1]) =
     Response True
       (Json \<lparr>data_tasks = [task1\<lparr>taskDate := ''2024-06-03''\<rparr>, task2],
              data_rooms = [room_labelled ''R1''], data_users = [], data_error = None\<rparr>)"
  by (simp add: backend_def staged_eq calendar1_def calendar0_def patch_task_def move_request_def
      json_request_def move1_def task1_def task2_def)

text \<open>The run of a handler given with its suspension points is the handler given as a function.\<close>

lemma complete_and_then:
  "complete store (and_then h f) = complete store (f (complete store h))"
proof (induction h)
  case (Completed s)
  show ?case by simp
next
  case (AwaitFetch s req k)
  have "complete store (and_then (k r s') f) = complete store (f (complete store (k r s')))"
    for r s'
    by (rule AwaitFetch.IH) (rule rangeI)+
  then show ?case by simp
next
  case (AwaitJson s k)
  have "complete store (and_then (k s') f) = complete store (f (complete store (k s')))" for s'
    by (rule AwaitJson.IH) (rule rangeI)
  then show ?case by simp
qed

lemma suspensions_and_then:
  "suspensions store (and_then h f)
     = suspensions store h @ suspensions store (f (complete store h))"
proof (induction h)
  case (Completed s)
  show ?case by simp
next
  case (AwaitFetch s req k)
  have "suspensions store (and_then (k r s') f)
      = suspensions store (k r s') @ suspensions store (f (complete store (k r s')))" for r s'
    by (rule AwaitFetch.IH) (rule rangeI)+
  then show ?case by simp
next
  case (AwaitJson s k)
  have "suspensions store (and_then (k s') f)
      = suspensions store (k s') @ suspensions store (f (complete store (k s')))" for s'
    by (rule AwaitJson.IH) (rule rangeI)
  then show ?case by simp
qed

lemma complete_fetchTasks_async: "complete store (fetchTasks_async s) = fetchTasks store s"
  by (simp add: fetchTasks_async_def fetchTasks_def Let_def split: response.split json_result.split)

lemma complete_confirmMove_async: "complete store (confirmMove_async s) = confirmMove store s"
  by (simp add: confirmMove_async_def confirmMove_def Let_def complete_and_then
      complete_fetchTasks_async fetchTasks_def
      split: option.split response.split json_result.split)

lemma suspensions_fetchTasks_async:
  "map fst (suspensions store (fetchTasks_async s))
     = PendingFetch (get_request ''/housekeeping-tasks'' [])
       # (case store (requests s @ [get_request ''/housekeeping-tasks'' []]) of
            FetchThrows \<Rightarrow> [] | Response ok js \<Rightarrow> [PendingJson])"
  "list_all (\<lambda>p. loading (snd p) = loading s) (suspensions store (fetchTasks_async s))"
  by (simp_all add: fetchTasks_async_def Let_def split: response.split json_result.split)

lemma fetchTasks_async_busy:
  "loading s \<Longrightarrow> list_all (\<lambda>p. loading (snd p)) (suspensions store (fetchTasks_async s))"
  by (simp add: fetchTasks_async_def Let_def split: response.split json_result.split)

lemma confirmMove_async_busy:
  "list_all (\<lambda>p. loading (snd p)) (suspensions store (confirmMove_async s))"
  by (simp add: confirmMove_async_def Let_def suspensions_and_then fetchTasks_async_busy
      split: option.split response.split json_result.split)

lemma confirmMove_async_refetch:
  assumes "pendingMove s = Some pm"
    and "store (requests s @ [move_request pm]) = Response True js"
  shows "take 2 (map fst (suspensions store (confirmMove_async s)))
     = [PendingFetch (move_request pm), PendingFetch (get_request ''/housekeeping-tasks'' [])]"
  using assms
  by (simp add: confirmMove_async_def Let_def suspensions_and_then suspensions_fetchTasks_async)

subsection \<open>Dropping\<close>

text \<open>
  From a start in which no drag is in flight, every sequence of events leads to a state
  whose drag refs go together; so a drag in flight always carries the ISO date of its
  origin cell, which is what the next theorem assumes.
\<close>

lemma dispatch_drag_consistent:
  assumes "drag_consistent s"
  shows "drag_consistent (dispatch zone store s ev)"
proof (cases ev)
  case (Drop date)
  with assms show ?thesis
    by (auto simp: drag_consistent_def handleDrop_def Let_def split: option.splits)
next
  case ConfirmMove
  with assms show ?thesis
    by (simp add: drag_consistent_def confirmMove_drag split: option.splits)
qed (use assms in \<open>auto simp: drag_consistent_def fetchRooms_frame fetchTasks_frame
      navigateDays_def transitionEnd_def goToToday_def changeDaysToShow_def
      updateContainerWidth_def handleDragStart_def handleDragOver_def cancelMove_def Let_def
      split: option.splits\<close>)

lemma run_drag_consistent:
  "drag_consistent s \<Longrightarrow> drag_consistent (run zone store s evs)"
  unfolding run_def
  by (induction evs arbitrary: s) (simp_all add: dispatch_drag_consistent)

text \<open>
  Claim C2. For every drop while a drag is in flight: when the drop date is the date of
  the origin, no pending move is created (the slot keeps what it held), and when it is
  another date, the slot holds one pending move, of the dragged task, from the origin
  date to the drop date. In both cases the drag state is reset and no request is sent.
\<close>

theorem handleDrop_in_flight:
  assumes "draggedTask s = Some t"
    and "draggedFromDate s = Some (formatDateISO origin)"
  shows "(formatDateISO date = formatDateISO origin \<longrightarrow>
            pendingMove (handleDrop s date) = pendingMove s)
       \<and> (formatDateISO date \<noteq> formatDateISO origin \<longrightarrow>
            pendingMove (handleDrop s date)
              = Some \<lparr>task = t, fromDate = formatDateISO origin, toDate = formatDateISO date\<rparr>)
       \<and> draggedTask (handleDrop s date) = None
       \<and> draggedFromDate (handleDrop s date) = None
       \<and> requests (handleDrop s date) = requests s"
  using assms formatDateISO_nonempty [of origin]
  by (simp add: handleDrop_def Let_def)

theorem handleDrop_in_flight_witness:
  "draggedTask (handleDragStart calendar1 task1 june1) = Some task1
   \<and> draggedFromDate (handleDragStart calendar1 task1 june1) = Some (formatDateISO june1)
   \<and> formatDateISO june3 \<noteq> formatDateISO june1
   \<and> pendingMove (handleDrop (handleDragStart calendar1 task1 june1) june3) = Some move1
   \<and> pendingMove (handleDrop (handleDragStart calendar1 task1 june1) june1) = None
   \<and> requests (handleDrop (handleDragStart calendar1 task1 june1) june3) = []"
proof -
  have a: "draggedTask (handleDragStart calendar1 task1 june1) = Some task1"
    and b: "draggedFromDate (handleDragStart calendar1 task1 june1) = Some (formatDateISO june1)"
    by (simp_all add: handleDragStart_def)
  have c: "pendingMove (handleDragStart calendar1 task1 june1) = None"
    and d: "requests (handleDragStart calendar1 task1 june1) = []"
    by (simp_all add: handleDragStart_def calendar1_def calendar0_def)
  from handleDrop_in_flight [OF a b, of june3] handleDrop_in_flight [OF a b, of june1] a b c d
  show ?thesis
    by (simp add: formatDateISO_june move1_def)
qed

subsection \<open>Confirming and cancelling\<close>

text \<open>
  Claim C1. For every pending move, \<open>confirmMove\<close> sends exactly one PUT, to
  \<open>/housekeeping-tasks/:id\<close> of the moved task, whose body has the single field
  \<open>taskDate\<close> set to the target date. At every point where the handler is suspended the
  busy flag is set. When the answer is a 2xx response, the pending move is cleared and the
  task list is fetched again exactly once, in full: the handler's second suspension is
  that fetch, so the flag is set while the fetch is awaited and while its body is read,
  and it is cleared only in the state the handler completes with, which is the state the
  fetch returns with the flag cleared.
\<close>

theorem confirmMove_commit:
  assumes "pendingMove s = Some pm"
  shows "(\<exists>rest. requests (confirmMove store s) = requests s @ move_request pm # rest
              \<and> list_all (\<lambda>r. req_method r \<noteq> PUT) rest)
       \<and> req_method (move_request pm) = PUT
       \<and> req_url (move_request pm) = API_URL @ ''/housekeeping-tasks/'' @ id_task (task pm)
       \<and> req_body (move_request pm) = Some [(''taskDate'', toDate pm)]
       \<and> complete store (confirmMove_async s) = confirmMove store s
       \<and> list_all (\<lambda>p. loading (snd p)) (suspensions store (confirmMove_async s))
       \<and> (store (requests s @ [move_request pm]) = Response True js \<longrightarrow>
             pendingMove (confirmMove store s) = None
           \<and> requests (confirmMove store s)
               = requests s @ [move_request pm, get_request ''/housekeeping-tasks'' []]
           \<and> take 2 (map fst (suspensions store (confirmMove_async s)))
               = [PendingFetch (move_request pm),
                  PendingFetch (get_request ''/housekeeping-tasks'' [])]
           \<and> confirmMove store s
               = (fetchTasks store
                    (s\<lparr>loading := True, error := [],
                       requests := requests s @ [move_request pm], pendingMove := None\<rparr>))
                 \<lparr>loading := False\<rparr>
           \<and> loading (fetchTasks store
                    (s\<lparr>loading := True, error := [],
                       requests := requests s @ [move_request pm], pendingMove := None\<rparr>))
           \<and> \<not> loading (confirmMove store s))"
proof -
  have get: "req_method (get_request ''/housekeeping-tasks'' []) \<noteq> PUT"
    by (simp add: get_request_def)
  have one: "\<exists>rest. requests (confirmMove store s) = requests s @ move_request pm # rest
              \<and> list_all (\<lambda>r. req_method r \<noteq> PUT) rest"
  proof (cases "\<exists>js. store (requests s @ [move_request pm]) = Response True js")
    case True
    then obtain js' where "store (requests s @ [move_request pm]) = Response True js'" ..
    from confirmMove_ok [of s pm store js'] assms this
    have "requests (confirmMove store s)
        = requests s @ move_request pm # [get_request ''/housekeeping-tasks'' []]"
      by (simp add: fetchTasks_frame)
    with get show ?thesis by simp
  next
    case False
    then have "store (requests s @ [move_request pm]) = FetchThrows
       \<or> (\<exists>js. store (requests s @ [move_request pm]) = Response False js)"
      by (cases "store (requests s @ [move_request pm])") auto
    then obtain js' where "store (requests s @ [move_request pm]) = FetchThrows
       \<or> store (requests s @ [move_request pm]) = Response False js'"
      by blast
    from confirmMove_failed [of s pm store js'] assms this
    have "requests (confirmMove store s) = requests s @ move_request pm # []"
      by simp
    then show ?thesis by simp
  qed
  have put: "req_method (move_request pm) = PUT
       \<and> req_url (move_request pm) = API_URL @ ''/housekeeping-tasks/'' @ id_task (task pm)
       \<and> req_body (move_request pm) = Some [(''taskDate'', toDate pm)]"
    by (simp add: move_request_def json_request_def)
  have run: "complete store (confirmMove_async s) = confirmMove store s"
    by (rule complete_confirmMove_async)
  have busy: "list_all (\<lambda>p. loading (snd p)) (suspensions store (confirmMove_async s))"
    by (rule confirmMove_async_busy)
  have ok: "pendingMove (confirmMove store s) = None
           \<and> requests (confirmMove store s)
               = requests s @ [move_request pm, get_request ''/housekeeping-tasks'' []]
           \<and> take 2 (map fst (suspensions store (confirmMove_async s)))
               = [PendingFetch (move_request pm),
                  PendingFetch (get_request ''/housekeeping-tasks'' [])]
           \<and> confirmMove store s
               = (fetchTasks store
                    (s\<lparr>loading := True, error := [],
                       requests := requests s @ [move_request pm], pendingMove := None\<rparr>))
                 \<lparr>loading := False\<rparr>
           \<and> loading (fetchTasks store
                    (s\<lparr>loading := True, error := [],
                       requests := requests s @ [move_request pm], pendingMove := None\<rparr>))
           \<and> \<not> loading (confirmMove store s)"
    if "store (requests s @ [move_request pm]) = Response True js"
    using confirmMove_ok [of s pm store js] confirmMove_async_refetch [of s pm store js] assms that
    by (simp add: fetchTasks_frame)
  from one put run busy ok show ?thesis by blast
qed

theorem confirmMove_commit_witness:
  "pendingMove staged = Some move1
   \<and> (\<exists>js. backend [task1, task2] (requests staged @ [move_request move1]) = Response True js)
   \<and> requests (confirmMove (backend [task1, task2]) staged)
       = [move_request move1, get_request ''/housekeeping-tasks'' []]
   \<and> req_url (move_request move1) = ''http://localhost:3000/housekeeping-tasks/1''
   \<and> req_body (move_request move1) = Some [(''taskDate'', ''2024-06-03'')]
   \<and> pendingMove (confirmMove (backend [task1, task2]) staged) = None
   \<and> take 2 (map fst (suspensions (backend [task1, task2]) (confirmMove_async staged)))
       = [PendingFetch (move_request move1), PendingFetch (get_request ''/housekeeping-tasks'' [])]
   \<and> list_all (\<lambda>p. loading (snd p)) (suspensions (backend [task1, task2]) (confirmMove_async staged))
   \<and> \<not> loading (confirmMove (backend [task1, task2]) staged)"
proof -
  define js where "js = Json \<lparr>data_tasks = [task1\<lparr>taskDate := ''2024-06-03''\<rparr>, task2],
              data_rooms = [room_labelled ''R1''], data_users = [], data_error = None\<rparr>"
  have a: "pendingMove staged = Some move1"
    by (simp add: staged_eq)
  have r: "requests staged = []"
    by (simp add: staged_eq calendar1_def calendar0_def)
  have b: "backend [task1, task2] (requests staged @ [move_request move1]) = Response True js"
    unfolding js_def by (rule backend_move1)
  note commit = confirmMove_commit [of staged move1 "backend [task1, task2]" js, OF a]
  from commit
  have put: "req_url (move_request move1) = API_URL @ ''/housekeeping-tasks/'' @ id_task (task move1)
      \<and> req_body (move_request move1) = Some [(''taskDate'', toDate move1)]"
    by blast
  from commit
  have busy: "list_all (\<lambda>p. loading (snd p))
      (suspensions (backend [task1, task2]) (confirmMove_async staged))"
    by blast
  from commit b
  have fin: "pendingMove (confirmMove (backend [task1, task2]) staged) = None
      \<and> requests (confirmMove (backend [task1, task2]) staged)
          = requests staged @ [move_request move1, get_request ''/housekeeping-tasks'' []]
      \<and> take 2 (map fst (suspensions (backend [task1, task2]) (confirmMove_async staged)))
          = [PendingFetch (move_request move1),
             PendingFetch (get_request ''/housekeeping-tasks'' [])]
      \<and> \<not> loading (confirmMove (backend [task1, task2]) staged)"
    by blast
  from put have "req_url (move_request move1) = ''http://localhost:3000/housekeeping-tasks/1''
      \<and> req_body (move_request move1) = Some [(''taskDate'', ''2024-06-03'')]"
    by (simp add: API_URL_def move1_def task1_def)
  with a b fin busy r show ?thesis by simp
qed

text \<open>
  Claim C3. For every pending move, when the PUT fails (the fetch throws, or the response
  is not 2xx), the pending move is cleared, an error message is set, the busy flag is
  cleared, and the task list is left as it was: no refresh is requested, and every cell
  shows the tasks it showed before. Cancelling clears the pending move with no request
  and no change of the task list.
\<close>

theorem confirmMove_failure:
  assumes "pendingMove s = Some pm"
    and "store (requests s @ [move_request pm]) = FetchThrows
       \<or> store (requests s @ [move_request pm]) = Response False js"
  shows "pendingMove (confirmMove store s) = None
       \<and> error (confirmMove store s) \<noteq> []
       \<and> \<not> loading (confirmMove store s)
       \<and> tasks (confirmMove store s) = tasks s
       \<and> requests (confirmMove store s) = requests s @ [move_request pm]
       \<and> getTasksForRoomAndDate (confirmMove store s) room date
           = getTasksForRoomAndDate s room date
       \<and> pendingMove (cancelMove s) = None
       \<and> requests (cancelMove s) = requests s
       \<and> tasks (cancelMove s) = tasks s"
proof -
  note eq = confirmMove_failed [of s pm store js, OF assms]
  have msg: "(case store (requests s @ [move_request pm]) of
                   Response ok (Json data) \<Rightarrow> or_else (data_error data) ''Failed to move task''
                 | _ \<Rightarrow> ''Failed to move task'') \<noteq> []"
    by (simp add: or_else_nonempty split: response.split json_result.split)
  have a: "pendingMove (confirmMove store s) = None"
    and b: "error (confirmMove store s) \<noteq> []"
    and c: "\<not> loading (confirmMove store s)"
    and d: "tasks (confirmMove store s) = tasks s"
    and e: "requests (confirmMove store s) = requests s @ [move_request pm]"
    and f: "statusFilter (confirmMove store s) = statusFilter s"
    using msg by (simp_all add: eq)
  from d f have g: "getTasksForRoomAndDate (confirmMove store s) room date
           = getTasksForRoomAndDate s room date"
    by (simp add: getTasksForRoomAndDate_def Let_def)
  have h: "pendingMove (cancelMove s) = None \<and> requests (cancelMove s) = requests s
       \<and> tasks (cancelMove s) = tasks s"
    by (simp add: cancelMove_def)
  from a b c d e g h show ?thesis by blast
qed

theorem confirmMove_failure_witness:
  "pendingMove staged = Some move1
   \<and> rejecting ''Task already exists for this room, date and type''
        (requests staged @ [move_request move1])
      = Response False
          (Json \<lparr>data_tasks = [], data_rooms = [], data_users = [],
                 data_error = Some ''Task already exists for this room, date and type''\<rparr>)
   \<and> pendingMove (confirmMove (rejecting ''Task already exists for this room, date and type'') staged)
       = None
   \<and> tasks (confirmMove (rejecting ''Task already exists for this room, date and type'') staged)
       = [task1, task2]
   \<and> requests (confirmMove (rejecting ''Task already exists for this room, date and type'') staged)
       = [move_request move1]
   \<and> \<not> loading (confirmMove (rejecting ''Task already exists for this room, date and type'') staged)"
proof -
  define store where "store = rejecting ''Task already exists for this room, date and type''"
  define js :: "HousekeepingTask json_result" where
    "js = Json \<lparr>data_tasks = [], data_rooms = [], data_users = [],
                 data_error = Some ''Task already exists for this room, date and type''\<rparr>"
  have a: "pendingMove staged = Some move1"
    by (simp add: staged_eq)
  have b: "store (requests staged @ [move_request move1]) = Response False js"
    by (simp add: store_def js_def rejecting_def)
  then have b': "store (requests staged @ [move_request move1]) = FetchThrows
       \<or> store (requests staged @ [move_request move1]) = Response False js"
    by simp
  have r: "requests staged = []" and t: "tasks staged = [task1, task2]"
    by (simp_all add: staged_eq calendar1_def calendar0_def)
  from confirmMove_failure [of staged move1 store js, OF a b']
  have "pendingMove (confirmMove store staged) = None
      \<and> tasks (confirmMove store staged) = tasks staged
      \<and> requests (confirmMove store staged) = requests staged @ [move_request move1]
      \<and> \<not> loading (confirmMove store staged)"
    by blast
  with a b r t show ?thesis
    unfolding store_def js_def by simp
qed

text \<open>
  The scenario of the specification, run through the handlers: task 1 is dragged from
  1 June to 3 June and the move is confirmed against a store that applies the patch.
  One PUT and one GET are sent, and the task is shown under 3 June only.
\<close>

lemma reschedule_scenario:
  "requests (run (fixed_zone 0) (backend [task1, task2]) calendar1 [DragStart task1 june1, Drop june3, ConfirmMove])
     = [move_request move1, get_request ''/housekeeping-tasks'' []]
   \<and> getTasksForRoomAndDate
        (run (fixed_zone 0) (backend [task1, task2]) calendar1 [DragStart task1 june1, Drop june3, ConfirmMove])
        ''R1'' june3 = [task1\<lparr>taskDate := ''2024-06-03''\<rparr>]
   \<and> getTasksForRoomAndDate
        (run (fixed_zone 0) (backend [task1, task2]) calendar1 [DragStart task1 june1, Drop june3, ConfirmMove])
        ''R1'' june1 = []"
proof -
  define final where "final = confirmMove (backend [task1, task2]) staged"
  have split: "run (fixed_zone 0) (backend [task1, task2]) calendar1 [DragStart task1 june1, Drop june3, ConfirmMove]
      = final"
    by (simp add: run_def staged_def final_def)
  have a: "pendingMove staged = Some move1"
    by (simp add: staged_eq)
  have r: "requests staged = []" and f: "statusFilter staged = ''all''"
    by (simp_all add: staged_eq calendar1_def calendar0_def)
  note ok = confirmMove_ok [of staged move1 "backend [task1, task2]", OF a backend_move1]
  have g: "backend [task1, task2] [move_request move1, get_request ''/housekeeping-tasks'' []]
      = Response True
       (Json \<lparr>data_tasks = [task1\<lparr>taskDate := ''2024-06-03''\<rparr>, task2],
              data_rooms = [room_labelled ''R1''], data_users = [], data_error = None\<rparr>)"
    by (simp add: backend_def patch_task_def move_request_def json_request_def get_request_def
        move1_def task1_def task2_def)
  have t: "tasks final = [task1\<lparr>taskDate := ''2024-06-03''\<rparr>, task2]"
    by (simp add: final_def ok fetchTasks_tasks r g)
  have q: "requests final = [move_request move1, get_request ''/housekeeping-tasks'' []]"
    by (simp add: final_def ok fetchTasks_frame r)
  have f': "statusFilter final = ''all''"
    by (simp add: final_def ok fetchTasks_def Let_def r g f)
  have c3: "getTasksForRoomAndDate final ''R1'' june3 = [task1\<lparr>taskDate := ''2024-06-03''\<rparr>]"
    unfolding getTasksForRoomAndDate_def t f' formatDateISO_june
    by (simp add: task1_def task2_def)
  have c1: "getTasksForRoomAndDate final ''R1'' june1 = []"
    unfolding getTasksForRoomAndDate_def t f' formatDateISO_june
    by (simp add: task1_def task2_def)
  from q c3 c1 show ?thesis
    unfolding split by blast
qed

subsection \<open>One pending move at a time\<close>

text \<open>
  Claim C4 says that a new drag cannot begin while a pending move is outstanding.
  \<open>handleDragStart\<close> has no such guard, and the template keeps every task block
  draggable. In the state below the move of task 1 is pending, the grid is shown (not
  loading) with task 2 in its cell; dragging task 2 starts a drag, and dropping it on
  4 June replaces the pending move of task 1 by one of task 2, with no confirm, no cancel
  and no request.
\<close>

theorem second_drag_replaces_pending_move:
  "pendingMove staged = Some move1
   \<and> \<not> loading staged
   \<and> getTasksForRoomAndDate staged ''R1'' june2 = [task2]
   \<and> draggedTask (run (fixed_zone 0) offline staged [DragStart task2 june2]) = Some task2
   \<and> pendingMove (run (fixed_zone 0) offline staged [DragStart task2 june2]) = Some move1
   \<and> pendingMove (run (fixed_zone 0) offline staged [DragStart task2 june2, Drop june4]) = Some move2
   \<and> move2 \<noteq> move1
   \<and> requests (run (fixed_zone 0) offline staged [DragStart task2 june2, Drop june4]) = []"
  by (simp add: staged_eq run_def handleDragStart_def handleDrop_def formatDateISO_june
      getTasksForRoomAndDate_def calendar1_def calendar0_def move1_def move2_def task1_def
      task2_def Let_def)

text \<open>
  Claim C4, amended. At every point there is at most one pending move, since the state
  has a single slot for it. Starting a drag leaves the slot as it is. A drop either
  leaves it as it is, or, when a drag is in flight and the drop date differs from the
  origin, overwrites it with the new pending move, whatever it held. Cancelling and
  confirming empty the slot.
\<close>

theorem pendingMove_single_slot:
  "length (pendingMoves (run zone store s evs)) \<le> 1
   \<and> pendingMove (handleDragStart s t date) = pendingMove s
   \<and> (pendingMove (handleDrop s date) = pendingMove s
      \<or> (\<exists>t origin. draggedTask s = Some t \<and> draggedFromDate s = Some origin
            \<and> origin \<noteq> formatDateISO date
            \<and> pendingMove (handleDrop s date)
                = Some \<lparr>task = t, fromDate = origin, toDate = formatDateISO date\<rparr>))
   \<and> pendingMove (cancelMove s) = None
   \<and> pendingMove (confirmMove store s) = None"
proof -
  have one: "length (pendingMoves (run zone store s evs)) \<le> 1"
    by (simp add: pendingMoves_def split: option.split)
  have start: "pendingMove (handleDragStart s t date) = pendingMove s"
    by (simp add: handleDragStart_def)
  have drop: "pendingMove (handleDrop s date) = pendingMove s
      \<or> (\<exists>t origin. draggedTask s = Some t \<and> draggedFromDate s = Some origin
            \<and> origin \<noteq> formatDateISO date
            \<and> pendingMove (handleDrop s date)
                = Some \<lparr>task = t, fromDate = origin, toDate = formatDateISO date\<rparr>)"
    by (auto simp: handleDrop_def Let_def split: option.split)
  have cancel: "pendingMove (cancelMove s) = None"
    by (simp add: cancelMove_def)
  have confirm: "pendingMove (confirmMove store s) = None"
    by (simp add: confirmMove_def Let_def fetchTasks_frame
        split: option.split response.split json_result.split)
  from one start drop cancel confirm show ?thesis by blast
qed

subsection \<open>What staging leaves untouched\<close>

lemma fetchTasks_tasks_cases:
  "tasks (fetchTasks store s) = tasks s
   \<or> (\<exists>reqs ok data. store (reqs @ [get_request ''/housekeeping-tasks'' []]) = Response ok (Json data)
         \<and> tasks (fetchTasks store s) = data_tasks data)"
proof (cases "store (requests s @ [get_request ''/housekeeping-tasks'' []])")
  case FetchThrows
  then show ?thesis by (simp add: fetchTasks_tasks)
next
  case (Response ok js)
  show ?thesis
  proof (cases js)
    case JsonThrows
    with Response show ?thesis by (simp add: fetchTasks_tasks)
  next
    case (Json data)
    with Response have "tasks (fetchTasks store s) = data_tasks data"
      by (simp add: fetchTasks_tasks)
    with Response Json show ?thesis by blast
  qed
qed

lemma confirmMove_tasks:
  "tasks (confirmMove store s) = tasks s
   \<or> (\<exists>reqs ok data. store (reqs @ [get_request ''/housekeeping-tasks'' []]) = Response ok (Json data)
         \<and> tasks (confirmMove store s) = data_tasks data)"
proof (cases "pendingMove s")
  case None
  then show ?thesis by (simp add: confirmMove_def)
next
  case (Some pm)
  show ?thesis
  proof (cases "\<exists>js. store (requests s @ [move_request pm]) = Response True js")
    case True
    then obtain js where ok: "store (requests s @ [move_request pm]) = Response True js" ..
    let ?s = "s\<lparr>loading := True, error := [],
        requests := requests s @ [move_request pm], pendingMove := None\<rparr>"
    have eq: "tasks (confirmMove store s) = tasks (fetchTasks store ?s)"
      using confirmMove_ok [of s pm store js] Some ok by simp
    show ?thesis
    proof (cases "store (requests ?s @ [get_request ''/housekeeping-tasks'' []])")
      case FetchThrows
      then show ?thesis by (simp add: eq fetchTasks_tasks)
    next
      case (Response ok' js')
      show ?thesis
      proof (cases js')
        case JsonThrows
        with Response show ?thesis by (simp add: eq fetchTasks_tasks)
      next
        case (Json data)
        with Response have "tasks (confirmMove store s) = data_tasks data"
          by (simp add: eq fetchTasks_tasks)
        with Response Json show ?thesis by blast
      qed
    qed
  next
    case False
    then have "store (requests s @ [move_request pm]) = FetchThrows
       \<or> (\<exists>js. store (requests s @ [move_request pm]) = Response False js)"
      by (cases "store (requests s @ [move_request pm])") auto
    then obtain js where "store (requests s @ [move_request pm]) = FetchThrows
       \<or> store (requests s @ [move_request pm]) = Response False js"
      by blast
    from confirmMove_failed [of s pm store js] Some this
    show ?thesis by simp
  qed
qed

text \<open>
  Claim C10. \<open>handleDragStart\<close>, \<open>handleDrop\<close> and \<open>cancelMove\<close> change neither the task
  list (so no field of any task, its date included) nor the room list, and they send no
  request. Over all events of the component, the task list after an event is the task
  list before it, unless the event is a fetch of the tasks or a confirmation, and then it
  is the list that the store returned for a GET of \<open>/housekeeping-tasks\<close>.
\<close>

theorem staging_frame:
  "tasks (handleDragStart s t date) = tasks s
   \<and> rooms (handleDragStart s t date) = rooms s
   \<and> requests (handleDragStart s t date) = requests s
   \<and> tasks (handleDrop s date) = tasks s
   \<and> rooms (handleDrop s date) = rooms s
   \<and> requests (handleDrop s date) = requests s
   \<and> tasks (cancelMove s) = tasks s
   \<and> rooms (cancelMove s) = rooms s
   \<and> requests (cancelMove s) = requests s
   \<and> (tasks (dispatch zone store s ev) = tasks s
      \<or> (ev = FetchTasks \<or> ev = ConfirmMove)
        \<and> (\<exists>reqs ok data.
              store (reqs @ [get_request ''/housekeeping-tasks'' []]) = Response ok (Json data)
              \<and> tasks (dispatch zone store s ev) = data_tasks data))"
proof -
  have start: "tasks (handleDragStart s t date) = tasks s
   \<and> rooms (handleDragStart s t date) = rooms s
   \<and> requests (handleDragStart s t date) = requests s"
    by (simp add: handleDragStart_def)
  have drop: "tasks (handleDrop s date) = tasks s
   \<and> rooms (handleDrop s date) = rooms s
   \<and> requests (handleDrop s date) = requests s"
    by (simp add: handleDrop_def Let_def split: option.split)
  have cancel: "tasks (cancelMove s) = tasks s
   \<and> rooms (cancelMove s) = rooms s
   \<and> requests (cancelMove s) = requests s"
    by (simp add: cancelMove_def)
  have only: "tasks (dispatch zone store s ev) = tasks s
      \<or> (ev = FetchTasks \<or> ev = ConfirmMove)
        \<and> (\<exists>reqs ok data.
              store (reqs @ [get_request ''/housekeeping-tasks'' []]) = Response ok (Json data)
              \<and> tasks (dispatch zone store s ev) = data_tasks data)"
  proof (cases ev)
    case FetchTasks
    with fetchTasks_tasks_cases [of store s] show ?thesis by simp
  next
    case ConfirmMove
    with confirmMove_tasks [of store s] show ?thesis by simp
  next
    case (Drop d)
    then show ?thesis by (simp add: handleDrop_def Let_def split: option.split)
  qed (simp_all add: fetchRooms_frame navigateDays_def transitionEnd_def goToToday_def
      changeDaysToShow_def updateContainerWidth_def handleDragStart_def handleDragOver_def
      cancelMove_def Let_def split: option.split)
  from start drop cancel only show ?thesis by blast
qed

section \<open>The task form\<close>

text \<open>
  Claim C9. When \<open>addTask\<close> is called with a form whose room, assigned user or task date
  is empty, no request is sent, the error message is set, and the loading flag keeps its
  value: it stays false. Nothing else of the state changes.
\<close>

theorem addTask_validation:
  assumes "roomId_form (formData s) = [] \<or> assignedUserId_form (formData s) = []
       \<or> taskDate_form (formData s) = []"
  shows "requests_m (addTask store now s) = requests_m s
       \<and> error_m (addTask store now s) = ''Room, assigned user, and task date are required''
       \<and> error_m (addTask store now s) \<noteq> []
       \<and> loading_m (addTask store now s) = loading_m s
       \<and> addTask store now s = s\<lparr>error_m := ''Room, assigned user, and task date are required''\<rparr>"
  using assms by (simp add: addTask_def)

theorem addTask_validation_witness:
  "roomId_form (formData manager0) = []
   \<and> \<not> loading_m manager0
   \<and> requests_m (addTask unreachable 0 manager0) = []
   \<and> error_m (addTask unreachable 0 manager0) = ''Room, assigned user, and task date are required''
   \<and> \<not> loading_m (addTask unreachable 0 manager0)"
proof -
  have a: "roomId_form (formData manager0) = []"
    by (simp add: manager0_def)
  then have a': "roomId_form (formData manager0) = [] \<or> assignedUserId_form (formData manager0) = []
       \<or> taskDate_form (formData manager0) = []"
    by simp
  have b: "\<not> loading_m manager0" and c: "requests_m manager0 = []"
    by (simp_all add: manager0_def)
  from addTask_validation [of manager0 unreachable 0, OF a']
  have "requests_m (addTask unreachable 0 manager0) = requests_m manager0
       \<and> error_m (addTask unreachable 0 manager0) = ''Room, assigned user, and task date are required''
       \<and> loading_m (addTask unreachable 0 manager0) = loading_m manager0"
    by blast
  with a b c show ?thesis by simp
qed

end
